theory Spec2Isabelle
  imports Complex_Main "HOL-Library.AList"
begin

section \<open>Conventions of the embedding\<close>

text \<open>
  The services under \<^verbatim>\<open>python_backend/services\<close> are embedded function by function.
  Python floats are idealised as reals; the one non-number that the code can produce and
  that decides a branch, NaN, is explicit: a value that may be NaN has type
  \<open>real option\<close> and \<open>None\<close> is NaN. Where a result depends on a float discontinuously
  the double that the code holds is not derived from the idealised value but is a
  parameter (\<open>float_results\<close> below). Dictionaries are association lists in insertion
  order (\<open>AList.update\<close> keeps the position of a key that is already present, as a
  Python dict does). Exceptions are values of \<open>py_error\<close>, returned in \<open>Inl\<close>. The clock
  is read once per call and passed as \<open>now\<close> (seconds); calendar dates are day numbers.
  The random generator is a stream of draws passed as a parameter.
\<close>

datatype py_error = ValueError string | KeyError string | ZeroDivisionError

datatype log_entry = Info string | Warning string | Error string

fun str_error :: "py_error \<Rightarrow> string" where
  "str_error (ValueError m) = m"
| "str_error (KeyError k) = [CHR 0x27] @ k @ [CHR 0x27]"
| "str_error ZeroDivisionError = ''float division by zero''"

subsection \<open>Numbers, strings, ranges\<close>

definition digit_char :: "nat \<Rightarrow> char" where
  "digit_char d = char_of (48 + d)"

function str_nat :: "nat \<Rightarrow> string" where
  "str_nat n = (if n < 10 then [digit_char n] else str_nat (n div 10) @ [digit_char (n mod 10)])"
  by pat_completeness auto
termination
  by (relation "measure id") auto

declare str_nat.simps [simp del]

text \<open>\<^verbatim>\<open>range(start, stop, step)\<close> for a positive step and natural bounds.\<close>

function py_range :: "nat \<Rightarrow> nat \<Rightarrow> nat \<Rightarrow> nat list" where
  "py_range i stop step =
     (if step = 0 \<or> stop \<le> i then [] else i # py_range (i + step) stop step)"
  by pat_completeness auto
termination
  by (relation "measure (\<lambda>(i, stop, step). stop - i)") auto

declare py_range.simps [simp del]

text \<open>The slice \<^verbatim>\<open>xs[a:b]\<close> for \<open>0 \<le> a \<le> b\<close>.\<close>

definition py_slice :: "'a list \<Rightarrow> nat \<Rightarrow> nat \<Rightarrow> 'a list" where
  "py_slice xs a b = take (b - a) (drop a xs)"

text \<open>\<^verbatim>\<open>np.mean\<close> of a list of numbers: NaN (with a warning, no exception) on the empty list.\<close>

definition np_mean :: "real list \<Rightarrow> real option" where
  "np_mean xs = (if xs = [] then None else Some (sum_list xs / real (length xs)))"

text \<open>The exact population standard deviation (what \<^verbatim>\<open>np.std\<close> approximates), NaN on the empty list.\<close>

definition np_std :: "real list \<Rightarrow> real option" where
  "np_std xs =
     (case np_mean xs of
        None \<Rightarrow> None
      | Some m \<Rightarrow> Some (sqrt (sum_list (map (\<lambda>x. (x - m)\<^sup>2) xs) / real (length xs))))"

text \<open>Rounding to the nearest integer, halves to the even neighbour (\<^verbatim>\<open>rint\<close>).\<close>

definition rint :: "real \<Rightarrow> int" where
  "rint y =
     (let f = \<lfloor>y\<rfloor>; d = y - of_int f
      in if d < 1 / 2 then f else if 1 / 2 < d then f + 1 else if even f then f else f + 1)"

text \<open>\<^verbatim>\<open>round(x, 1)\<close>: one decimal place.\<close>

definition round1 :: "real \<Rightarrow> real" where
  "round1 x = of_int (rint (x * 10)) / 10"

text \<open>
  Python's \<^verbatim>\<open>max(0, v)\<close> keeps its first argument unless the second is greater;
  a NaN is never greater, so \<^verbatim>\<open>max(0, nan)\<close> is 0.
\<close>

definition py_max0 :: "real option \<Rightarrow> real" where
  "py_max0 v = (case v of None \<Rightarrow> 0 | Some x \<Rightarrow> if 0 < x then x else 0)"

section \<open>Backtesting service\<close>

subsection \<open>Double precision where it decides the result\<close>

text \<open>
  Two results of \<^verbatim>\<open>services/backtesting.py\<close> depend discontinuously on a double.

  \<^item> The Sharpe ratio is guarded by \<^verbatim>\<open>np.std(returns) > 0\<close>. In double precision the
    deviation of returns that are equal as real numbers need not be zero (the returns of
    the prices 27, 9, 3, 1 are all \<open>-2/3\<close>, and numpy computes a deviation of about
    \<open>10\<^sup>-\<^sup>1\<^sup>6\<close>). The value that \<^verbatim>\<open>np.std\<close> computes for a list of returns is the field
    \<open>np_std_float\<close>.

  \<^item> The trend stores \<^verbatim>\<open>round(accuracy, 1)\<close>, and a value near a tie is rounded up or
    down depending on the rounding errors of the evaluation of \<^verbatim>\<open>accuracy\<close>. The field
    \<open>accuracy_error\<close> is the difference between the double that this evaluation leaves
    for a window and the exact value.

  Nothing is assumed about the two fields: what is proved holds for every value of the
  parameter, the behaviour of the floating point unit included.
\<close>

record float_results =
  np_std_float :: "real list \<Rightarrow> real"
  accuracy_error :: "real list \<Rightarrow> real list \<Rightarrow> real"

subsection \<open>Rolling accuracy\<close>

record accuracy_point =
  period :: string
  accuracy :: real
  end_date :: int

text \<open>
  The list comprehension
  \<^verbatim>\<open>[abs((a - p) / a) for a, p in zip(actual, predicted) if a != 0]\<close>.
\<close>

definition abs_pct_errors :: "real list \<Rightarrow> real list \<Rightarrow> real list" where
  "abs_pct_errors actual predicted =
     map (\<lambda>(a, p). \<bar>(a - p) / a\<bar>) (filter (\<lambda>(a, p). a \<noteq> 0) (zip actual predicted))"

definition today :: "nat \<Rightarrow> int" where
  "today now = int (now div 86400)"

text \<open>
  The body of the loop of \<^verbatim>\<open>_calculate_rolling_accuracy\<close> for the loop index \<open>i\<close>,
  appending to the trend built so far.
\<close>

definition rolling_step ::
  "float_results \<Rightarrow> nat \<Rightarrow> real list \<Rightarrow> real list \<Rightarrow> accuracy_point list \<Rightarrow> nat
     \<Rightarrow> accuracy_point list" where
  "rolling_step fp now actual predicted accuracy_trend i =
     (let window = 7;
          window_actual = py_slice actual (i - window) i;
          window_predicted = py_slice predicted (i - window) i;
          mape = np_mean (abs_pct_errors window_actual window_predicted);
          acc = py_max0 (map_option (\<lambda>m. 1 - m) mape) * 100
      in accuracy_trend @
         [\<lparr>period = ''Week '' @ str_nat (length accuracy_trend + 1),
           accuracy = round1 (acc + accuracy_error fp window_actual window_predicted),
           end_date = today now - int (length actual - i)\<rparr>])"

definition calculate_rolling_accuracy ::
  "float_results \<Rightarrow> nat \<Rightarrow> real list \<Rightarrow> real list \<Rightarrow> accuracy_point list" where
  "calculate_rolling_accuracy fp now actual predicted =
     foldl (rolling_step fp now actual predicted) [] (py_range 7 (length actual) 7)"


subsection \<open>The synthetic backtest of one model\<close>

text \<open>
  After \<^verbatim>\<open>np.random.seed(42)\<close> the draws are a fixed sequence; \<open>z i\<close> is the \<open>i\<close>-th
  standard normal deviate of that sequence, and \<^verbatim>\<open>np.random.normal(loc, scale)\<close> is
  \<open>loc + scale * z i\<close>. numpy raises \<^verbatim>\<open>ValueError\<close> for a negative scale.
\<close>

definition gauss_draw :: "(nat \<Rightarrow> real) \<Rightarrow> nat \<Rightarrow> real \<Rightarrow> real \<Rightarrow> real" where
  "gauss_draw z i loc scale = loc + scale * z i"

definition np_random_normal :: "(nat \<Rightarrow> real) \<Rightarrow> nat \<Rightarrow> real \<Rightarrow> real \<Rightarrow> py_error + real" where
  "np_random_normal z i loc scale =
     (if scale < 0 then Inl (ValueError ''scale < 0'') else Inr (gauss_draw z i loc scale))"

text \<open>\<^verbatim>\<open>pd.date_range(start, end, freq='D')\<close> on day numbers.\<close>

definition date_range :: "int \<Rightarrow> int \<Rightarrow> int list" where
  "date_range start stop = map (\<lambda>k. start + int k) [0..<nat (stop - start + 1)]"

text \<open>The random walk of the actual prices: \<open>n\<close> steps from draw \<open>i\<close> on (scale 0.02 is not negative).\<close>

fun actual_prices_loop :: "(nat \<Rightarrow> real) \<Rightarrow> nat \<Rightarrow> nat \<Rightarrow> real \<Rightarrow> real list" where
  "actual_prices_loop z i 0 current_price = []"
| "actual_prices_loop z i (Suc n) current_price =
     (let change = gauss_draw z i 0.001 0.02;
          current_price' = current_price * (1 + change)
      in current_price' # actual_prices_loop z (Suc i) n current_price')"

text \<open>The prediction loop: for each actual price the pair (predicted, abs(error)).\<close>

fun predictions_loop :: "(nat \<Rightarrow> real) \<Rightarrow> nat \<Rightarrow> real list \<Rightarrow> py_error + (real \<times> real) list" where
  "predictions_loop z i [] = Inr []"
| "predictions_loop z i (actual # rest) =
     (case np_random_normal z i 0 (actual * 0.03) of
        Inl e \<Rightarrow> Inl e
      | Inr error \<Rightarrow>
          (case predictions_loop z (Suc i) rest of
             Inl e \<Rightarrow> Inl e
           | Inr ps \<Rightarrow> Inr ((actual + error, \<bar>error\<bar>) # ps)))"

text \<open>
  \<^verbatim>\<open>[(p / a - 1) for a, p in zip(actual_prices[:-1], actual_prices[1:])]\<close>: the prices are
  Python floats, so a zero \<open>a\<close> raises \<^verbatim>\<open>ZeroDivisionError\<close>.
\<close>

definition price_returns :: "real list \<Rightarrow> py_error + real list" where
  "price_returns actual_prices =
     (let pairs = zip (butlast actual_prices) (tl actual_prices)
      in if \<exists>(a, p) \<in> set pairs. a = 0 then Inl ZeroDivisionError
         else Inr (map (\<lambda>(a, p). p / a - 1) pairs))"

text \<open>
  \<^verbatim>\<open>if len(returns) > 1 and np.std(returns) > 0\<close>, then
  \<^verbatim>\<open>np.mean(returns) / np.std(returns) * np.sqrt(252)\<close>, else 0. The deviation is the
  double that numpy computes, \<open>np_std_float\<close>; it is computed only when there are at
  least two returns.
\<close>

definition sharpe_ratio :: "float_results \<Rightarrow> real list \<Rightarrow> py_error + real option" where
  "sharpe_ratio fp actual_prices =
     (case price_returns actual_prices of
        Inl e \<Rightarrow> Inl e
      | Inr returns \<Rightarrow>
          Inr (if 1 < length returns \<and> 0 < np_std_float fp returns
               then map_option (\<lambda>m. m / np_std_float fp returns * sqrt 252) (np_mean returns)
               else Some 0))"

definition mape_metric :: "real list \<Rightarrow> real list \<Rightarrow> real option" where
  "mape_metric actual_prices predicted_prices =
     map_option (\<lambda>mape. mape * 100) (np_mean (abs_pct_errors actual_prices predicted_prices))"

definition rmse_metric :: "real list \<Rightarrow> real list \<Rightarrow> real option" where
  "rmse_metric actual_prices predicted_prices =
     map_option sqrt (np_mean (map (\<lambda>(a, p). (a - p)\<^sup>2) (zip actual_prices predicted_prices)))"

text \<open>The dictionary \<^verbatim>\<open>metrics_results\<close>, filled in the order mae, rmse, mape, sharpe.\<close>

definition compute_metrics ::
  "float_results \<Rightarrow> string list \<Rightarrow> real list \<Rightarrow> real list \<Rightarrow> real list
     \<Rightarrow> py_error + (string \<times> real option) list" where
  "compute_metrics fp metrics actual_prices predicted_prices prediction_errors =
     (let m1 = (if ''mae'' \<in> set metrics then [(''mae'', np_mean prediction_errors)] else []);
          m2 = (if ''rmse'' \<in> set metrics
                then [(''rmse'', rmse_metric actual_prices predicted_prices)] else []);
          m3 = (if ''mape'' \<in> set metrics
                then [(''mape'', mape_metric actual_prices predicted_prices)] else [])
      in if ''sharpe'' \<in> set metrics
         then (case sharpe_ratio fp actual_prices of
                 Inl e \<Rightarrow> Inl e
               | Inr sharpe \<Rightarrow> Inr (m1 @ m2 @ m3 @ [(''sharpe'', sharpe)]))
         else Inr (m1 @ m2 @ m3))"

record backtest_result =
  model_name :: string
  metrics :: "(string \<times> real option) list"
  rolling_accuracy :: "accuracy_point list"
  total_predictions :: nat
  period_start :: int
  period_end :: int

definition backtest_model ::
  "float_results \<Rightarrow> (nat \<Rightarrow> nat \<Rightarrow> real) \<Rightarrow> nat \<Rightarrow> string \<Rightarrow> nat \<Rightarrow> nat \<Rightarrow> nat \<Rightarrow> string list
     \<Rightarrow> py_error + backtest_result" where
  "backtest_model fp gauss now name period_days window_days horizon_days metric_names =
     (let dates = date_range (today now - int period_days) (today now);
          z = gauss 42;
          base_price = 180;
          actual_prices = actual_prices_loop z 0 (length dates) base_price
      in case predictions_loop z (length dates) actual_prices of
           Inl e \<Rightarrow> Inl e
         | Inr preds \<Rightarrow>
             (let predicted_prices = map fst preds;
                  prediction_errors = map snd preds
              in case compute_metrics fp metric_names actual_prices predicted_prices
                        prediction_errors of
                   Inl e \<Rightarrow> Inl e
                 | Inr metrics_results \<Rightarrow>
                     Inr \<lparr>model_name = name,
                          metrics = metrics_results,
                          rolling_accuracy =
                            calculate_rolling_accuracy fp now actual_prices predicted_prices,
                          total_predictions = length actual_prices,
                          period_start = hd dates,
                          period_end = last dates\<rparr>))"

subsection \<open>Aggregate statistics\<close>

text \<open>Comparison of two floats that may be NaN: every comparison with a NaN is false.\<close>

fun float_lt :: "real option \<Rightarrow> real option \<Rightarrow> bool" where
  "float_lt (Some a) (Some b) = (a < b)"
| "float_lt _ _ = False"

text \<open>
  Python's \<^verbatim>\<open>min\<close> and \<^verbatim>\<open>max\<close> keep the first element and replace it by a later one
  only when that one is strictly better; on an empty sequence they raise \<^verbatim>\<open>ValueError\<close>.
\<close>

definition py_best :: "('a \<Rightarrow> 'a \<Rightarrow> bool) \<Rightarrow> 'a \<Rightarrow> 'a list \<Rightarrow> 'a" where
  "py_best better first rest = foldl (\<lambda>best item. if better item best then item else best) first rest"

definition py_best_of :: "('a \<Rightarrow> 'a \<Rightarrow> bool) \<Rightarrow> 'a list \<Rightarrow> py_error + 'a" where
  "py_best_of better xs =
     (case xs of
        [] \<Rightarrow> Inl (ValueError ''arg is an empty sequence'')
      | x # rest \<Rightarrow> Inr (py_best better x rest))"

text \<open>\<^verbatim>\<open>np.mean\<close> of floats: NaN as soon as one of them is NaN.\<close>

definition nan_mean :: "real option list \<Rightarrow> real option" where
  "nan_mean vs = (case those vs of None \<Rightarrow> None | Some xs \<Rightarrow> np_mean xs)"

text \<open>
  \<^verbatim>\<open>if metric_name not in all_metrics: all_metrics[metric_name] = []\<close> followed by
  \<^verbatim>\<open>all_metrics[metric_name].append(value)\<close>.
\<close>

definition collect_metric ::
  "(string \<times> real option list) list \<Rightarrow> string \<times> real option \<Rightarrow> (string \<times> real option list) list" where
  "collect_metric all_metrics mv =
     AList.update (fst mv)
       ((case map_of all_metrics (fst mv) of None \<Rightarrow> [] | Some vs \<Rightarrow> vs) @ [snd mv]) all_metrics"

definition collect_all_metrics ::
  "(string \<times> backtest_result) list \<Rightarrow> (string \<times> real option list) list" where
  "collect_all_metrics backtest_results =
     foldl (\<lambda>all_metrics (name, results). foldl collect_metric all_metrics (metrics results))
       [] backtest_results"

definition error_metrics :: "string list" where
  "error_metrics = [''mae'', ''rmse'', ''mape'']"

text \<open>The two entries that \<^verbatim>\<open>avg_metrics\<close> receives for one metric.\<close>

definition summarise_metric ::
  "(string \<times> real option) list \<Rightarrow> string \<times> real option list \<Rightarrow> py_error + (string \<times> real option) list" where
  "summarise_metric avg_metrics entry =
     (let metric_name = fst entry; vals = snd entry
      in case (if metric_name \<in> set error_metrics
               then py_best_of float_lt vals
               else py_best_of (\<lambda>item best. float_lt best item) vals) of
           Inl e \<Rightarrow> Inl e
         | Inr best \<Rightarrow>
             Inr (AList.update (''best_'' @ metric_name) best
                   (AList.update (''avg_'' @ metric_name) (nan_mean vals) avg_metrics)))"

fun summarise_metrics ::
  "(string \<times> real option) list \<Rightarrow> (string \<times> real option list) list
     \<Rightarrow> py_error + (string \<times> real option) list" where
  "summarise_metrics avg_metrics [] = Inr avg_metrics"
| "summarise_metrics avg_metrics (entry # rest) =
     (case summarise_metric avg_metrics entry of
        Inl e \<Rightarrow> Inl e
      | Inr avg_metrics' \<Rightarrow> summarise_metrics avg_metrics' rest)"

text \<open>
  The key of the best-model search,
  \<^verbatim>\<open>backtest_results[x]["metrics"].get("mape", float("inf"))\<close>: a number, NaN, or the
  default infinity; \<open>key_lt\<close> is \<^verbatim>\<open><\<close> on these.
\<close>

datatype mape_key = Num real | NaN | Infinity

fun key_lt :: "mape_key \<Rightarrow> mape_key \<Rightarrow> bool" where
  "key_lt (Num a) (Num b) = (a < b)"
| "key_lt (Num a) Infinity = True"
| "key_lt _ _ = False"

definition mape_key_of :: "backtest_result \<Rightarrow> mape_key" where
  "mape_key_of results =
     (case map_of (metrics results) ''mape'' of
        None \<Rightarrow> Infinity
      | Some None \<Rightarrow> NaN
      | Some (Some v) \<Rightarrow> Num v)"

record overall_stats =
  summary_metrics :: "(string \<times> real option) list"
  best_model :: string
  total_models :: nat
  evaluation_start :: int
  evaluation_end :: int

text \<open>
  The body of the \<^verbatim>\<open>try\<close> of \<^verbatim>\<open>_calculate_overall_stats\<close>. The search for the best model
  runs over the items of the dictionary in iteration order, the key of an item being the
  key of its value.
\<close>

definition overall_stats_body :: "(string \<times> backtest_result) list \<Rightarrow> py_error + overall_stats" where
  "overall_stats_body backtest_results =
     (case summarise_metrics [] (collect_all_metrics backtest_results) of
        Inl e \<Rightarrow> Inl e
      | Inr avg_metrics \<Rightarrow>
          (case py_best_of (\<lambda>item best. key_lt (mape_key_of (snd item)) (mape_key_of (snd best)))
                  backtest_results of
             Inl e \<Rightarrow> Inl e
           | Inr best \<Rightarrow>
               (case py_best_of (<) (map (\<lambda>(name, r). period_start r) backtest_results) of
                  Inl e \<Rightarrow> Inl e
                | Inr start \<Rightarrow>
                    (case py_best_of (>) (map (\<lambda>(name, r). period_end r) backtest_results) of
                       Inl e \<Rightarrow> Inl e
                     | Inr stop \<Rightarrow>
                         Inr \<lparr>summary_metrics = avg_metrics,
                              best_model = fst best,
                              total_models = length backtest_results,
                              evaluation_start = start,
                              evaluation_end = stop\<rparr>))))"

text \<open>Any exception is logged and the empty dictionary returned: \<open>None\<close> here.\<close>

definition calculate_overall_stats :: "(string \<times> backtest_result) list \<Rightarrow> overall_stats option" where
  "calculate_overall_stats backtest_results =
     (case overall_stats_body backtest_results of Inl e \<Rightarrow> None | Inr stats \<Rightarrow> Some stats)"

subsection \<open>The batch\<close>

definition period_map :: "(string \<times> nat) list" where
  "period_map =
     [(''1 Day'', 1), (''7 Days'', 7), (''30 Days'', 30), (''1 Week'', 7), (''2 Weeks'', 14),
      (''1 Month'', 30), (''2 Months'', 60), (''Last 3 Months'', 90), (''Last 6 Months'', 180),
      (''Last 1 Year'', 365), (''Last 2 Years'', 730)]"

definition parse_period :: "string \<Rightarrow> nat" where
  "parse_period period_str = (case map_of period_map period_str of None \<Rightarrow> 30 | Some d \<Rightarrow> d)"

text \<open>
  What training stores for a model (\<^verbatim>\<open>services/models.py\<close>), and the registry of
  analyses that \<^verbatim>\<open>run_backtest\<close> reads.
\<close>

datatype param_value = PInt int | PReal real | PStr string | PBool bool | PInts "int list"

record model_result =
  trained_name :: string
  trained_status :: string
  trained_metrics :: "(string \<times> real) list"
  parameters :: "(string \<times> param_value) list"
  trained_at :: nat

record train_request =
  analysis_id :: string
  selected_models :: "string list"

record analysis =
  models :: "(string \<times> model_result) list"
  request :: train_request
  created_at :: nat

record backtest_parameters =
  param_period :: string
  param_rolling_window :: string
  param_forecast_horizon :: string
  param_metrics :: "string list"

record backtest_output =
  output_analysis_id :: string
  backtest_results :: "(string \<times> backtest_result) list"
  overall :: "overall_stats option"
  output_parameters :: backtest_parameters
  completed_at :: nat

text \<open>
  The loop over \<^verbatim>\<open>models.keys()\<close>: there is no handler inside the loop, an exception of
  \<^verbatim>\<open>_backtest_model\<close> leaves it.
\<close>

fun backtest_loop ::
  "float_results \<Rightarrow> (nat \<Rightarrow> nat \<Rightarrow> real) \<Rightarrow> nat \<Rightarrow> nat \<Rightarrow> nat \<Rightarrow> nat \<Rightarrow> string list \<Rightarrow> string list
     \<Rightarrow> (string \<times> backtest_result) list \<Rightarrow> py_error + (string \<times> backtest_result) list" where
  "backtest_loop fp gauss now period_days window_days horizon_days metric_names [] results = Inr results"
| "backtest_loop fp gauss now period_days window_days horizon_days metric_names (name # rest) results =
     (case backtest_model fp gauss now name period_days window_days horizon_days metric_names of
        Inl e \<Rightarrow> Inl e
      | Inr model_results \<Rightarrow>
          backtest_loop fp gauss now period_days window_days horizon_days metric_names rest
            (AList.update name model_results results))"

text \<open>
  \<^verbatim>\<open>run_backtest\<close>: the handler around the whole body logs and re-raises, so the result
  is the exception itself.
\<close>

definition run_backtest ::
  "float_results \<Rightarrow> (nat \<Rightarrow> nat \<Rightarrow> real) \<Rightarrow> nat \<Rightarrow> string \<Rightarrow> string \<Rightarrow> string \<Rightarrow> string \<Rightarrow> string list
     \<Rightarrow> (string \<rightharpoonup> analysis) \<Rightarrow> py_error + backtest_output" where
  "run_backtest fp gauss now aid period_str rolling_window forecast_horizon metric_names analysis_results =
     (case analysis_results aid of
        None \<Rightarrow> Inl (ValueError (''Analysis '' @ aid @ '' not found''))
      | Some a \<Rightarrow>
          (let period_days = parse_period period_str;
               window_days = parse_period rolling_window;
               horizon_days = parse_period forecast_horizon
           in case backtest_loop fp gauss now period_days window_days horizon_days metric_names
                     (map fst (models a)) [] of
                Inl e \<Rightarrow> Inl e
              | Inr results \<Rightarrow>
                  Inr \<lparr>output_analysis_id = aid,
                       backtest_results = results,
                       overall = calculate_overall_stats results,
                       output_parameters =
                         \<lparr>param_period = period_str,
                          param_rolling_window = rolling_window,
                          param_forecast_horizon = forecast_horizon,
                          param_metrics = metric_names\<rparr>,
                       completed_at = now\<rparr>))"

section \<open>Model service: training a batch of models\<close>

text \<open>
  \<^verbatim>\<open>np.random.uniform(low, high)\<close> from the generator's current state: \<open>u\<close> is the
  stream of samples of [0, 1) that the generator will deliver, \<open>pos\<close> counts the
  samples consumed.
\<close>

definition np_random_uniform :: "(nat \<Rightarrow> real) \<Rightarrow> nat \<Rightarrow> real \<Rightarrow> real \<Rightarrow> real" where
  "np_random_uniform u pos low high = low + (high - low) * u pos"

definition train_arima :: "(nat \<Rightarrow> real) \<Rightarrow> nat \<Rightarrow> nat \<Rightarrow> model_result \<times> nat" where
  "train_arima u pos now =
     (\<lparr>trained_name = ''arima'',
       trained_status = ''completed'',
       trained_metrics =
         [(''mae'', np_random_uniform u pos 2.0 4.0),
          (''rmse'', np_random_uniform u (pos + 1) 3.0 5.0),
          (''mape'', np_random_uniform u (pos + 2) 1.5 3.0),
          (''aic'', np_random_uniform u (pos + 3) 100 200),
          (''bic'', np_random_uniform u (pos + 4) 110 210)],
       parameters = [(''order'', PInts [1, 1, 1]), (''seasonal_order'', PInts [0, 0, 0, 0])],
       trained_at = now\<rparr>, pos + 5)"

definition train_prophet :: "(nat \<Rightarrow> real) \<Rightarrow> nat \<Rightarrow> nat \<Rightarrow> model_result \<times> nat" where
  "train_prophet u pos now =
     (\<lparr>trained_name = ''prophet'',
       trained_status = ''completed'',
       trained_metrics =
         [(''mae'', np_random_uniform u pos 1.8 3.5),
          (''rmse'', np_random_uniform u (pos + 1) 2.5 4.5),
          (''mape'', np_random_uniform u (pos + 2) 1.2 2.8),
          (''coverage'', np_random_uniform u (pos + 3) 0.85 0.95)],
       parameters =
         [(''seasonality_mode'', PStr ''multiplicative''), (''yearly_seasonality'', PBool True),
          (''weekly_seasonality'', PBool True), (''daily_seasonality'', PBool False)],
       trained_at = now\<rparr>, pos + 4)"



text \<open>The registry of training jobs: per analysis a status and one entry per model.\<close>

record model_job =
  status :: string
  progress :: nat
  error :: "string option"

record training_job =
  job_status :: string
  job_error :: "string option"
  job_models :: "(string \<times> model_job) list"


record train_state =
  training_jobs :: "string \<rightharpoonup> training_job"
  analysis_results :: "string \<rightharpoonup> analysis"
  rng_pos :: nat







section \<open>Feature engineering service\<close>

text \<open>
  A column is a list of floats, \<open>None\<close> for NaN. A row of the stock data is its date and
  the dictionary of its other cells; a cell may hold \<^verbatim>\<open>None\<close>. The data frame is the list
  of rows sorted by date; it has a column for every key that occurs in some row.
\<close>

type_synonym column = "real option list"

record price_row =
  date :: int
  cells :: "(string \<times> real option) list"

definition df_column :: "price_row list \<Rightarrow> string \<Rightarrow> py_error + column" where
  "df_column df c =
     (if \<exists>r \<in> set df. c \<in> fst ` set (cells r)
      then Inr (map (\<lambda>r. case map_of (cells r) c of Some (Some v) \<Rightarrow> Some v | _ \<Rightarrow> None) df)
      else Inl (KeyError c))"

fun df_columns :: "price_row list \<Rightarrow> string list \<Rightarrow> py_error + column list" where
  "df_columns df [] = Inr []"
| "df_columns df (c # cs) =
     (case df_column df c of
        Inl e \<Rightarrow> Inl e
      | Inr x \<Rightarrow> (case df_columns df cs of Inl e \<Rightarrow> Inl e | Inr xs \<Rightarrow> Inr (x # xs)))"

text \<open>
  The indicator functions of the \<^verbatim>\<open>ta\<close> package and the pandas and numpy series
  operations are outside the repository. They are a parameter \<open>lib\<close>: the function named
  by the first argument, applied to the argument columns, returns a column or raises.
\<close>

type_synonym series_lib = "string \<Rightarrow> column list \<Rightarrow> py_error + column"

definition lib_feature :: "series_lib \<Rightarrow> price_row list \<Rightarrow> string \<Rightarrow> string list \<Rightarrow> py_error + column option" where
  "lib_feature lib df fname cols =
     (case df_columns df cols of
        Inl e \<Rightarrow> Inl e
      | Inr xs \<Rightarrow> (case lib fname xs of Inl e \<Rightarrow> Inl e | Inr c \<Rightarrow> Inr (Some c)))"

definition raw_feature :: "price_row list \<Rightarrow> string \<Rightarrow> py_error + column option" where
  "raw_feature df c = (case df_column df c of Inl e \<Rightarrow> Inl e | Inr x \<Rightarrow> Inr (Some x))"

definition mock_feature :: "price_row list \<Rightarrow> real \<Rightarrow> py_error + column option" where
  "mock_feature df v = Inr (Some (replicate (length df) (Some v)))"

text \<open>
  The body of the \<^verbatim>\<open>try\<close> of \<^verbatim>\<open>_generate_feature\<close>: \<open>Inr None\<close> is the last branch
  (unknown feature), \<open>Inl\<close> an exception raised on the way.
\<close>

definition try_feature :: "series_lib \<Rightarrow> price_row list \<Rightarrow> string \<Rightarrow> py_error + column option" where
  "try_feature lib df feature =
     (if feature = ''close'' then raw_feature df ''close''
      else if feature = ''volume'' then raw_feature df ''volume''
      else if feature = ''open'' then raw_feature df ''open''
      else if feature = ''high'' then raw_feature df ''high''
      else if feature = ''low'' then raw_feature df ''low''
      else if feature = ''sma_20'' then lib_feature lib df ''ta.trend.sma_indicator(window=20)'' [''close'']
      else if feature = ''sma_50'' then lib_feature lib df ''ta.trend.sma_indicator(window=50)'' [''close'']
      else if feature = ''ema_12'' then lib_feature lib df ''ta.trend.ema_indicator(window=12)'' [''close'']
      else if feature = ''ema_26'' then lib_feature lib df ''ta.trend.ema_indicator(window=26)'' [''close'']
      else if feature = ''rsi'' then lib_feature lib df ''ta.momentum.rsi(window=14)'' [''close'']
      else if feature = ''macd'' then lib_feature lib df ''ta.trend.macd'' [''close'']
      else if feature = ''macd_signal'' then lib_feature lib df ''ta.trend.macd_signal'' [''close'']
      else if feature = ''macd_diff'' then lib_feature lib df ''ta.trend.macd_diff'' [''close'']
      else if feature = ''bollinger_upper'' then lib_feature lib df ''ta.volatility.bollinger_hband'' [''close'']
      else if feature = ''bollinger_lower'' then lib_feature lib df ''ta.volatility.bollinger_lband'' [''close'']
      else if feature = ''bollinger_middle'' then lib_feature lib df ''ta.volatility.bollinger_mavg'' [''close'']
      else if feature = ''atr'' then
        lib_feature lib df ''ta.volatility.average_true_range'' [''high'', ''low'', ''close'']
      else if feature = ''stoch'' then lib_feature lib df ''ta.momentum.stoch'' [''high'', ''low'', ''close'']
      else if feature = ''williams_r'' then
        lib_feature lib df ''ta.momentum.williams_r'' [''high'', ''low'', ''close'']
      else if feature = ''price_change'' then lib_feature lib df ''pct_change'' [''close'']
      else if feature = ''log_return'' then lib_feature lib df ''np.log(x / x.shift(1))'' [''close'', ''close'']
      else if feature = ''volatility'' then
        lib_feature lib df ''pct_change().rolling(window=20).std()'' [''close'']
      else if feature = ''volume_sma'' then lib_feature lib df ''ta.volume.volume_sma'' [''close'', ''volume'']
      else if feature = ''volume_change'' then lib_feature lib df ''pct_change'' [''volume'']
      else if feature = ''pe_ratio'' then mock_feature df 20.5
      else if feature = ''market_cap'' then mock_feature df 1000000000
      else if feature = ''book_value'' then mock_feature df 15.2
      else if feature = ''gdp'' then mock_feature df 2.1
      else if feature = ''cpi'' then mock_feature df 3.2
      else if feature = ''interest_rates'' then mock_feature df 5.25
      else Inr None)"

text \<open>The feature names that have a branch of their own.\<close>

definition known_features :: "string list" where
  "known_features =
     [''close'', ''volume'', ''open'', ''high'', ''low'', ''sma_20'', ''sma_50'', ''ema_12'',
      ''ema_26'', ''rsi'', ''macd'', ''macd_signal'', ''macd_diff'', ''bollinger_upper'',
      ''bollinger_lower'', ''bollinger_middle'', ''atr'', ''stoch'', ''williams_r'',
      ''price_change'', ''log_return'', ''volatility'', ''volume_sma'', ''volume_change'',
      ''pe_ratio'', ''market_cap'', ''book_value'', ''gdp'', ''cpi'', ''interest_rates'']"

text \<open>
  \<^verbatim>\<open>_generate_feature\<close> with what it logs: an unknown name gives a warning and
  \<^verbatim>\<open>None\<close>, an exception is logged as an error and gives \<^verbatim>\<open>None\<close> too.
\<close>

definition generate_feature ::
  "series_lib \<Rightarrow> price_row list \<Rightarrow> string \<Rightarrow> column option \<times> log_entry list" where
  "generate_feature lib df feature =
     (case try_feature lib df feature of
        Inr (Some c) \<Rightarrow> (Some c, [])
      | Inr None \<Rightarrow> (None, [Warning (''Unknown feature: '' @ feature)])
      | Inl e \<Rightarrow> (None, [Error (''Error generating feature '' @ feature @ '': '' @ str_error e)]))"

definition descriptions :: "(string \<times> string) list" where
  "descriptions =
     [(''close'', ''Daily closing price''),
      (''volume'', ''Trading volume''),
      (''open'', ''Daily opening price''),
      (''high'', ''Daily high price''),
      (''low'', ''Daily low price''),
      (''sma_20'', ''20-day Simple Moving Average''),
      (''sma_50'', ''50-day Simple Moving Average''),
      (''ema_12'', ''12-day Exponential Moving Average''),
      (''ema_26'', ''26-day Exponential Moving Average''),
      (''rsi'', ''Relative Strength Index (14-day)''),
      (''macd'', ''MACD Line''),
      (''macd_signal'', ''MACD Signal Line''),
      (''macd_diff'', ''MACD Histogram''),
      (''bollinger_upper'', ''Bollinger Bands Upper''),
      (''bollinger_lower'', ''Bollinger Bands Lower''),
      (''bollinger_middle'', ''Bollinger Bands Middle''),
      (''atr'', ''Average True Range''),
      (''stoch'', ''Stochastic Oscillator''),
      (''williams_r'', ''Williams %R''),
      (''price_change'', ''Daily price change percentage''),
      (''log_return'', ''Log returns''),
      (''volatility'', ''20-day rolling volatility''),
      (''volume_sma'', ''Volume Simple Moving Average''),
      (''volume_change'', ''Volume change percentage''),
      (''pe_ratio'', ''Price-to-Earnings Ratio''),
      (''market_cap'', ''Market Capitalization''),
      (''book_value'', ''Book Value per Share''),
      (''gdp'', ''GDP Growth Rate''),
      (''cpi'', ''Consumer Price Index''),
      (''interest_rates'', ''Central Bank Interest Rates'')]"

definition get_feature_description :: "string \<Rightarrow> string" where
  "get_feature_description feature =
     (case map_of descriptions feature of None \<Rightarrow> ''Feature: '' @ feature | Some d \<Rightarrow> d)"

record feature_info =
  name :: string
  values_of :: column
  description :: string

record importance_entry =
  feature :: string
  importance :: real

definition importance_scores :: "(string \<times> real) list" where
  "importance_scores =
     [(''close'', 0.85), (''volume'', 0.45), (''sma_20'', 0.72), (''rsi'', 0.38), (''macd'', 0.56),
      (''bollinger_upper'', 0.41), (''bollinger_lower'', 0.39), (''ema_12'', 0.68),
      (''ema_26'', 0.65)]"

text \<open>
  \<^verbatim>\<open>_calculate_feature_importance\<close>. The default of \<^verbatim>\<open>importance_scores.get\<close> is
  evaluated for every feature, so the \<open>k\<close>-th feature consumes the \<open>k\<close>-th sample whether
  it uses it or not. \<^verbatim>\<open>sort(reverse=True)\<close> is stable: entries of equal score keep
  their order.
\<close>

definition importance_entry_of :: "(nat \<Rightarrow> real) \<Rightarrow> nat \<times> string \<Rightarrow> importance_entry" where
  "importance_entry_of u kf =
     (let score = (case map_of importance_scores (snd kf) of
                     Some s \<Rightarrow> s
                   | None \<Rightarrow> np_random_uniform u (fst kf) 0.1 0.9)
      in \<lparr>feature = snd kf, importance = score\<rparr>)"

definition calculate_feature_importance ::
  "(nat \<Rightarrow> real) \<Rightarrow> (string \<times> feature_info) list \<Rightarrow> importance_entry list" where
  "calculate_feature_importance u features_data =
     sort_key (\<lambda>e. - importance e)
       (map (importance_entry_of u) (enumerate 0 (map fst features_data)))"

text \<open>
  \<^verbatim>\<open>DataFrame.corr()\<close> (Pearson, pairwise complete observations, at least one
  observation): the rows where both columns are numbers are used; the result is NaN when
  there is no such row or when the product of the two sums of squared deviations is zero.
\<close>

definition complete_pairs :: "column \<Rightarrow> column \<Rightarrow> (real \<times> real) list" where
  "complete_pairs xs ys =
     concat (map (\<lambda>(x, y). case (x, y) of (Some a, Some b) \<Rightarrow> [(a, b)] | _ \<Rightarrow> []) (zip xs ys))"

definition pearson_of_pairs :: "(real \<times> real) list \<Rightarrow> real option" where
  "pearson_of_pairs ps =
     (let n = real (length ps);
          mx = sum_list (map fst ps) / n;
          my = sum_list (map snd ps) / n;
          ssx = sum_list (map (\<lambda>(x, y). (x - mx)\<^sup>2) ps);
          ssy = sum_list (map (\<lambda>(x, y). (y - my)\<^sup>2) ps);
          cov = sum_list (map (\<lambda>(x, y). (x - mx) * (y - my)) ps);
          divisor = sqrt (ssx * ssy)
      in if ps = [] \<or> divisor = 0 then None else Some (cov / divisor))"

definition pearson :: "column \<Rightarrow> column \<Rightarrow> real option" where
  "pearson xs ys = pearson_of_pairs (complete_pairs xs ys)"

text \<open>\<^verbatim>\<open>fillna(0)\<close> on one entry.\<close>

definition fillna0 :: "real option \<Rightarrow> real" where
  "fillna0 v = (case v of None \<Rightarrow> 0 | Some r \<Rightarrow> r)"

text \<open>
  \<^verbatim>\<open>_calculate_correlation_matrix\<close>. Columns with an empty value list are left out.
  Assigning a column whose length differs from the frame's raises; the handler then
  returns the empty list.
\<close>

definition calculate_correlation_matrix :: "(string \<times> feature_info) list \<Rightarrow> real list list" where
  "calculate_correlation_matrix features_data =
     (let cols = filter (\<lambda>c. c \<noteq> []) (map (\<lambda>(feature_name, info). values_of info) features_data)
      in if cols = [] then []
         else if \<exists>c \<in> set cols. length c \<noteq> length (hd cols) then []
         else map (\<lambda>ci. map (\<lambda>cj. fillna0 (pearson ci cj)) cols) cols)"

definition feature_presets :: "(string \<times> string list) list" where
  "feature_presets =
     [(''basic'', [''close'', ''volume'', ''sma_20'']),
      (''technical'', [''close'', ''rsi'', ''macd'', ''bollinger_upper'', ''bollinger_lower'',
                       ''ema_12'', ''ema_26'']),
      (''macro'', [''close'', ''gdp'', ''cpi'', ''interest_rates'']),
      (''fundamental'', [''pe_ratio'', ''market_cap'', ''close'', ''book_value'']),
      (''custom'', [])]"

record feature_table =
  features :: "(string \<times> feature_info) list"
  feature_importance :: "importance_entry list"
  correlation_matrix :: "real list list"
  selected_features :: "string list"
  ticker :: string
  generated_at :: nat

text \<open>One iteration of the loop over \<^verbatim>\<open>features_to_generate\<close>, with the log so far.\<close>

definition feature_step ::
  "series_lib \<Rightarrow> price_row list \<Rightarrow> (string \<times> feature_info) list \<times> log_entry list \<Rightarrow> string
     \<Rightarrow> (string \<times> feature_info) list \<times> log_entry list" where
  "feature_step lib df acc feat =
     (let (feature_values, logged) = generate_feature lib df feat
      in case feature_values of
           None \<Rightarrow> (fst acc, snd acc @ logged)
         | Some vs \<Rightarrow>
             (AList.update feat
                \<lparr>name = feat, values_of = vs, description = get_feature_description feat\<rparr> (fst acc),
              snd acc @ logged))"

text \<open>
  \<^verbatim>\<open>generate_features\<close>: the result or the exception, and the log. \<open>stock_data\<close> is the
  list under the key \<^verbatim>\<open>"data"\<close>, \<open>None\<close> when there is no stock data or no such key.
\<close>

definition generate_features ::
  "series_lib \<Rightarrow> nat \<Rightarrow> (nat \<Rightarrow> real) \<Rightarrow> string \<Rightarrow> string \<Rightarrow> string list \<Rightarrow> price_row list option
     \<Rightarrow> (py_error + feature_table) \<times> log_entry list" where
  "generate_features lib now u tick preset selected stock_data =
     (case stock_data of
        None \<Rightarrow>
          (Inl (ValueError ''Stock data is required for feature generation''),
           [Error ''Error generating features: Stock data is required for feature generation''])
      | Some rows \<Rightarrow>
          if rows = [] then
            (Inl (ValueError ''Stock data is required for feature generation''),
             [Error ''Error generating features: Stock data is required for feature generation''])
          else
            (let df = sort_key date rows;
                 features_to_generate =
                   (if preset = ''custom'' then selected
                    else (case map_of feature_presets preset of None \<Rightarrow> [] | Some fs \<Rightarrow> fs));
                 (features_data, logged) = foldl (feature_step lib df) ([], []) features_to_generate
             in (Inr \<lparr>features = features_data,
                      feature_importance = calculate_feature_importance u features_data,
                      correlation_matrix = calculate_correlation_matrix features_data,
                      selected_features = features_to_generate,
                      ticker = tick,
                      generated_at = now\<rparr>, logged)))"

section \<open>Statements used by the properties\<close>

text \<open>
  The formula of the mean absolute percentage error as the specification words it:
  the mean of \<open>|actual - predicted| / actual\<close> over the pairs with a nonzero actual
  value, times 100.
\<close>

definition mape_spec :: "real list \<Rightarrow> real list \<Rightarrow> real option" where
  "mape_spec actual predicted =
     map_option (\<lambda>m. m * 100)
       (np_mean (map (\<lambda>(a, p). \<bar>a - p\<bar> / a) (filter (\<lambda>(a, p). a \<noteq> 0) (zip actual predicted))))"

text \<open>Inputs for the worked examples: a library whose every call raises, a constant stream.\<close>

definition failing_lib :: series_lib where
  "failing_lib fname cols = Inl (ValueError ''not available'')"

definition constant_stream :: "real \<Rightarrow> nat \<Rightarrow> real" where
  "constant_stream c i = c"

definition constant_gauss :: "real \<Rightarrow> nat \<Rightarrow> nat \<Rightarrow> real" where
  "constant_gauss c seed i = c"

text \<open>
  The parameter of an evaluation without rounding errors: the exact population standard
  deviation, and no error in the accuracy of a window.
\<close>

definition exact_results :: float_results where
  "exact_results =
     \<lparr>np_std_float = (\<lambda>xs. case np_std xs of None \<Rightarrow> 0 | Some s \<Rightarrow> s),
      accuracy_error = (\<lambda>window_actual window_predicted. 0)\<rparr>"

text \<open>The values of the metric \<open>m\<close> across the per-model results, in iteration order.\<close>

definition metric_values :: "string \<Rightarrow> (string \<times> backtest_result) list \<Rightarrow> real option list" where
  "metric_values m results =
     concat (map (\<lambda>(n, r). map snd (filter (\<lambda>kv. fst kv = m) (metrics r))) results)"

text \<open>The list that \<^verbatim>\<open>all_metrics\<close> holds for a metric (empty when it has no entry).\<close>

definition old_values :: "(string \<times> real option list) list \<Rightarrow> string \<Rightarrow> real option list" where
  "old_values am m = (case map_of am m of None \<Rightarrow> [] | Some vs \<Rightarrow> vs)"

text \<open>The value stored as the best of a metric, for a non-empty list of values.\<close>

definition best_value :: "string \<Rightarrow> real option list \<Rightarrow> real option" where
  "best_value m vs =
     (if m \<in> set error_metrics then py_best float_lt (hd vs) (tl vs)
      else py_best (\<lambda>item best. float_lt best item) (hd vs) (tl vs))"

text \<open>
  The MAPE entry of the \<open>j\<close>-th per-model result: \<open>None\<close> when the model has no MAPE,
  \<open>Some None\<close> when its MAPE is NaN.
\<close>

definition mape_of :: "(string \<times> backtest_result) list \<Rightarrow> nat \<Rightarrow> real option option" where
  "mape_of results j = map_of (metrics (snd (results ! j))) ''mape''"

text \<open>Four per-model results for the worked example of the aggregate statistics.\<close>

definition example_results :: "(string \<times> backtest_result) list" where
  "example_results =
     [(''arima'',
       \<lparr>model_name = ''arima'',
        metrics = [(''mae'', Some 2), (''rmse'', Some 3), (''mape'', Some 5), (''sharpe'', Some 1)],
        rolling_accuracy = [], total_predictions = 2, period_start = 0, period_end = 1\<rparr>),
      (''lstm'',
       \<lparr>model_name = ''lstm'',
        metrics = [(''mae'', Some 4), (''rmse'', Some 2), (''mape'', Some 1), (''sharpe'', Some 2)],
        rolling_accuracy = [], total_predictions = 2, period_start = 0, period_end = 1\<rparr>),
      (''prophet'',
       \<lparr>model_name = ''prophet'',
        metrics = [(''mae'', Some 1), (''mape'', Some 1)],
        rolling_accuracy = [], total_predictions = 2, period_start = 0, period_end = 1\<rparr>),
      (''xgboost'',
       \<lparr>model_name = ''xgboost'',
        metrics = [(''mae'', Some 3)],
        rolling_accuracy = [], total_predictions = 2, period_start = 0, period_end = 1\<rparr>)]"

text \<open>An analysis with two trained models, registered under the identifier \<open>a1\<close>.\<close>

definition example_analysis :: analysis where
  "example_analysis =
     \<lparr>models = [(''arima'', fst (train_arima (constant_stream (1 / 2)) 0 0)),
                (''prophet'', fst (train_prophet (constant_stream (1 / 2)) 5 0))],
      request = \<lparr>analysis_id = ''a1'', selected_models = [''arima'', ''prophet'']\<rparr>,
      created_at = 0\<rparr>"

definition example_registry :: "string \<rightharpoonup> analysis" where
  "example_registry = [''a1'' \<mapsto> example_analysis]"








text \<open>The warnings among the log entries.\<close>

fun is_warning :: "log_entry \<Rightarrow> bool" where
  "is_warning (Warning msg) = True"
| "is_warning _ = False"

text \<open>The entry that the loop of \<^verbatim>\<open>generate_features\<close> stores for a feature and its values.\<close>

definition feature_entry :: "string \<Rightarrow> column \<Rightarrow> feature_info" where
  "feature_entry feat vs = \<lparr>name = feat, values_of = vs, description = get_feature_description feat\<rparr>"

text \<open>Three rows of stock data, given out of date order.\<close>

definition example_rows :: "price_row list" where
  "example_rows =
     [\<lparr>date = 2, cells = [(''close'', Some 12), (''volume'', Some 300)]\<rparr>,
      \<lparr>date = 1, cells = [(''close'', Some 10), (''volume'', Some 100)]\<rparr>,
      \<lparr>date = 3, cells = [(''close'', Some 11), (''volume'', Some 200)]\<rparr>]"

text \<open>The importance entries of the features that the static table lists.\<close>

definition static_importance :: "importance_entry list \<Rightarrow> importance_entry list" where
  "static_importance entries = filter (\<lambda>e. feature e \<in> fst ` set importance_scores) entries"

text \<open>What a feature table holds apart from the importance list and the time stamp.\<close>

definition table_data ::
  "feature_table \<Rightarrow> (string \<times> feature_info) list \<times> real list list \<times> string list \<times> string" where
  "table_data t = (features t, correlation_matrix t, selected_features t, ticker t)"

text \<open>
  The numbers of a column, and whether two of them differ. The columns that enter the
  correlation matrix are the non-empty ones.
\<close>

definition column_numbers :: "column \<Rightarrow> real list" where
  "column_numbers c = concat (map (\<lambda>x. case x of None \<Rightarrow> [] | Some a \<Rightarrow> [a]) c)"

definition varies :: "column \<Rightarrow> bool" where
  "varies c = (\<exists>a \<in> set (column_numbers c). \<exists>b \<in> set (column_numbers c). a \<noteq> b)"

definition matrix_columns :: "feature_table \<Rightarrow> column list" where
  "matrix_columns t = filter (\<lambda>c. c \<noteq> []) (map (\<lambda>(feature_name, info). values_of info) (features t))"

section \<open>Rolling accuracy: the windows\<close>













section \<open>Mean absolute percentage error\<close>

lemma abs_pct_errors_filter:
  "abs_pct_errors (map fst (filter (\<lambda>(a, p). a \<noteq> 0) (zip actual predicted)))
                  (map snd (filter (\<lambda>(a, p). a \<noteq> 0) (zip actual predicted)))
   = abs_pct_errors actual predicted"
  by (simp add: abs_pct_errors_def zip_map_fst_snd)

text \<open>
  C5. The MAPE is the mean of \<open>|actual - predicted| / |actual|\<close> over exactly the pairs
  whose actual value is nonzero, times 100, and NaN when there is no such pair; dropping
  the pairs with a zero actual value from the input does not change it, and no division
  by zero takes place. For actual values that are not negative, as prices are, this is
  the mean of \<open>|actual - predicted| / actual\<close>, the formula \<open>mape_spec\<close> of the claim.
\<close>

theorem mape_excludes_zero_actuals:
  "mape_metric actual predicted =
     (let ps = filter (\<lambda>(a, p). a \<noteq> 0) (zip actual predicted)
      in if ps = [] then None
         else Some ((\<Sum>(a, p)\<leftarrow>ps. \<bar>a - p\<bar> / \<bar>a\<bar>) / real (length ps) * 100)) \<and>
   mape_metric (map fst (filter (\<lambda>(a, p). a \<noteq> 0) (zip actual predicted)))
               (map snd (filter (\<lambda>(a, p). a \<noteq> 0) (zip actual predicted)))
     = mape_metric actual predicted \<and>
   ((\<forall>a \<in> set actual. 0 \<le> a) \<longrightarrow> mape_metric actual predicted = mape_spec actual predicted)"
proof (intro conjI impI)
  have e: "(\<lambda>(a::real, p). \<bar>(a - p) / a\<bar>) = (\<lambda>(a, p). \<bar>a - p\<bar> / \<bar>a\<bar>)"
    by (simp add: fun_eq_iff abs_divide)
  show "mape_metric actual predicted =
     (let ps = filter (\<lambda>(a, p). a \<noteq> 0) (zip actual predicted)
      in if ps = [] then None
         else Some ((\<Sum>(a, p)\<leftarrow>ps. \<bar>a - p\<bar> / \<bar>a\<bar>) / real (length ps) * 100))"
    by (simp add: mape_metric_def abs_pct_errors_def np_mean_def e Let_def)
  show "mape_metric (map fst (filter (\<lambda>(a, p). a \<noteq> 0) (zip actual predicted)))
               (map snd (filter (\<lambda>(a, p). a \<noteq> 0) (zip actual predicted)))
     = mape_metric actual predicted"
    unfolding mape_metric_def abs_pct_errors_filter ..
next
  assume nonneg: "\<forall>a \<in> set actual. 0 \<le> a"
  have H: "map (\<lambda>(a, p). \<bar>(a - p) / a\<bar>) (filter (\<lambda>(a, p). a \<noteq> 0) (zip actual predicted))
      = map (\<lambda>(a, p). \<bar>a - p\<bar> / a) (filter (\<lambda>(a, p). a \<noteq> 0) (zip actual predicted))"
  proof (rule map_cong[OF refl])
    fix x assume "x \<in> set (filter (\<lambda>(a, p). a \<noteq> 0) (zip actual predicted))"
    then have "fst x \<in> set actual" by (auto dest: set_zip_leftD)
    with nonneg have "0 \<le> fst x" by blast
    then show "(case x of (a, p) \<Rightarrow> \<bar>(a - p) / a\<bar>) = (case x of (a, p) \<Rightarrow> \<bar>a - p\<bar> / a)"
      by (cases x) (simp add: abs_divide)
  qed
  show "mape_metric actual predicted = mape_spec actual predicted"
    unfolding mape_metric_def mape_spec_def abs_pct_errors_def H ..
qed

text \<open>
  Three pairs, the first with a zero actual value: the MAPE is that of the two other
  pairs, \<open>(1/2 + 1/4) / 2 * 100\<close>.
\<close>

theorem mape_excludes_zero_actuals_witness:
  "list_all (\<lambda>a. 0 \<le> a) [0, 2, 4 :: real] \<and>
   mape_metric [0, 2, 4] [5, 1, 5] = Some (75 / 2) \<and>
   mape_metric [2, 4] [1, 5] = Some (75 / 2) \<and>
   mape_spec [0, 2, 4] [5, 1, 5] = Some (75 / 2)"
  using mape_excludes_zero_actuals[of "[0, 2, 4]" "[5, 1, 5]"]
  by (simp add: Let_def mape_metric_def abs_pct_errors_def np_mean_def)

section \<open>Sharpe-style ratio\<close>



lemma price_returns_ok:
  assumes "\<forall>a \<in> set (butlast xs). a \<noteq> 0"
  shows "price_returns xs = Inr (map (\<lambda>(a, p). p / a - 1) (zip (butlast xs) (tl xs)))"
proof -
  have "\<not> (\<exists>(a, p) \<in> set (zip (butlast xs) (tl xs)). a = 0)"
    using assms by (auto dest: set_zip_leftD)
  then show ?thesis by (simp add: price_returns_def Let_def)
qed



text \<open>
  The returns of the prices 27, 9, 3, 1 are equal. In double precision their mean is
  rounded and numpy computes the deviation \<open>2\<^sup>-\<^sup>5\<^sup>3\<close>; with that value the guard passes and
  the quotient is formed (about \<open>-9.5 * 10\<^sup>1\<^sup>6\<close>).
\<close>

lemma sharpe_ratio_equal_returns:
  "sharpe_ratio \<lparr>np_std_float = (\<lambda>xs. 1 / 2 ^ 53), accuracy_error = (\<lambda>a p. 0)\<rparr> [27, 9, 3, 1]
     = Inr (Some (- (2 / 3) / (1 / 2 ^ 53) * sqrt 252))"
proof -
  have p: "price_returns [27, 9, 3, 1] = Inr [- (2 / 3), - (2 / 3), - (2 / 3)]"
    by (simp add: price_returns_def)
  show ?thesis by (simp add: sharpe_ratio_def p np_mean_def)
qed

section \<open>Aggregate statistics: averages, best values, best model\<close>

lemma py_best_snoc:
  "py_best better x (xs @ [y]) = (if better y (py_best better x xs) then y else py_best better x xs)"
  by (simp add: py_best_def)

lemma py_best_keeps_first:
  "\<forall>y \<in> set xs. \<not> better y x \<Longrightarrow> py_best better x xs = x"
  unfolding py_best_def by (induction xs) simp_all

text \<open>
  The search keeps the first of the best elements, for an order that is a strict weak
  order on the elements that satisfy \<open>ok\<close> and in which an element that does not
  satisfy \<open>ok\<close> (a NaN key) is never better than another.
\<close>

lemma py_best_first:
  assumes okx: "ok x"
      and nok: "\<And>a b. a \<in> set (x # xs) \<Longrightarrow> \<not> ok a \<Longrightarrow> \<not> better a b"
      and irr: "\<And>a. a \<in> set (x # xs) \<Longrightarrow> \<not> better a a"
      and tr: "\<And>a b c. a \<in> set (x # xs) \<Longrightarrow> b \<in> set (x # xs) \<Longrightarrow> c \<in> set (x # xs) \<Longrightarrow>
                 better a b \<Longrightarrow> better b c \<Longrightarrow> better a c"
      and ntr: "\<And>a b c. a \<in> set (x # xs) \<Longrightarrow> b \<in> set (x # xs) \<Longrightarrow> c \<in> set (x # xs) \<Longrightarrow>
                 ok a \<Longrightarrow> ok b \<Longrightarrow> ok c \<Longrightarrow> \<not> better a b \<Longrightarrow> \<not> better b c \<Longrightarrow> \<not> better a c"
  shows "\<exists>i \<le> length xs. py_best better x xs = (x # xs) ! i \<and> ok ((x # xs) ! i) \<and>
           (\<forall>j \<le> length xs. \<not> better ((x # xs) ! j) ((x # xs) ! i)) \<and>
           (\<forall>j < i. ok ((x # xs) ! j) \<longrightarrow> better ((x # xs) ! i) ((x # xs) ! j))"
  using nok irr tr ntr
proof (induction xs rule: rev_induct)
  case Nil
  have "\<not> better x x" by (rule Nil(2)) simp
  then show ?case using okx by (simp add: py_best_def)
next
  case (snoc y xs)
  define l where "l = x # xs"
  have ll: "x # xs @ [y] = l @ [y]" by (simp add: l_def)
  have len: "length l = Suc (length xs)" by (simp add: l_def)
  have sub: "set l \<subseteq> set (x # xs @ [y])" by (auto simp: l_def)
  have "\<exists>i \<le> length xs. py_best better x xs = l ! i \<and> ok (l ! i) \<and>
           (\<forall>j \<le> length xs. \<not> better (l ! j) (l ! i)) \<and>
           (\<forall>j < i. ok (l ! j) \<longrightarrow> better (l ! i) (l ! j))"
    unfolding l_def
  proof (rule snoc.IH)
    fix a b assume "a \<in> set (x # xs)" and n: "\<not> ok a"
    then have "a \<in> set (x # xs @ [y])" by auto
    then show "\<not> better a b" using n by (rule snoc.prems(1))
  next
    fix a assume "a \<in> set (x # xs)"
    then have "a \<in> set (x # xs @ [y])" by auto
    then show "\<not> better a a" by (rule snoc.prems(2))
  next
    fix a b c assume "a \<in> set (x # xs)" "b \<in> set (x # xs)" "c \<in> set (x # xs)"
      and ab: "better a b" and bc: "better b c"
    then have "a \<in> set (x # xs @ [y])" "b \<in> set (x # xs @ [y])" "c \<in> set (x # xs @ [y])" by auto
    then show "better a c" using ab bc by (rule snoc.prems(3))
  next
    fix a b c assume "a \<in> set (x # xs)" "b \<in> set (x # xs)" "c \<in> set (x # xs)"
      and oks: "ok a" "ok b" "ok c"
      and ab: "\<not> better a b" and bc: "\<not> better b c"
    then have "a \<in> set (x # xs @ [y])" "b \<in> set (x # xs @ [y])" "c \<in> set (x # xs @ [y])" by auto
    then show "\<not> better a c" using oks ab bc by (rule snoc.prems(4))
  qed
  then obtain i where i: "i \<le> length xs" and r: "py_best better x xs = l ! i"
    and oki: "ok (l ! i)"
    and nb: "\<forall>j \<le> length xs. \<not> better (l ! j) (l ! i)"
    and eb: "\<forall>j < i. ok (l ! j) \<longrightarrow> better (l ! i) (l ! j)"
    by blast
  have mem: "l ! j \<in> set (x # xs @ [y])" if "j \<le> length xs" for j
  proof -
    from that len have "j < length l" by simp
    then have "l ! j \<in> set l" by (rule nth_mem)
    with sub show ?thesis by blast
  qed
  have ymem: "y \<in> set (x # xs @ [y])" by simp
  have old: "\<And>j. j \<le> length xs \<Longrightarrow> (l @ [y]) ! j = l ! j"
    using len by (simp add: nth_append)
  have new: "(l @ [y]) ! Suc (length xs) = y"
    using len by (simp add: nth_append)
  show ?case
  proof (cases "better y (l ! i)")
    case True
    have oky: "ok y"
    proof (rule ccontr)
      assume "\<not> ok y"
      with ymem have "\<not> better y (l ! i)" by (rule snoc.prems(1))
      with True show False by blast
    qed
    have a: "py_best better x (xs @ [y]) = (l @ [y]) ! Suc (length xs)"
      using True r by (simp add: py_best_snoc new)
    have b: "\<forall>j \<le> length (xs @ [y]). \<not> better ((l @ [y]) ! j) ((l @ [y]) ! Suc (length xs))"
    proof (intro allI impI)
      fix j assume j: "j \<le> length (xs @ [y])"
      show "\<not> better ((l @ [y]) ! j) ((l @ [y]) ! Suc (length xs))"
      proof (cases "j \<le> length xs")
        case le: True
        have "\<not> better (l ! j) y"
        proof
          assume "better (l ! j) y"
          with True have "better (l ! j) (l ! i)"
            using snoc.prems(3)[OF mem[OF le] ymem mem[OF i]] by blast
          with nb le show False by blast
        qed
        then show ?thesis using le by (simp add: old new)
      next
        case False
        with j have "j = Suc (length xs)" by simp
        then show ?thesis using snoc.prems(2)[OF ymem] by (simp add: new)
      qed
    qed
    have c: "\<forall>j < Suc (length xs). ok ((l @ [y]) ! j) \<longrightarrow>
               better ((l @ [y]) ! Suc (length xs)) ((l @ [y]) ! j)"
    proof (intro allI impI)
      fix j assume "j < Suc (length xs)" and okj': "ok ((l @ [y]) ! j)"
      then have le: "j \<le> length xs" by simp
      have okj: "ok (l ! j)" using okj' le by (simp add: old)
      have "better y (l ! j)"
      proof (rule ccontr)
        assume "\<not> better y (l ! j)"
        moreover have "\<not> better (l ! j) (l ! i)" using nb le by blast
        ultimately have "\<not> better y (l ! i)"
          using snoc.prems(4)[OF ymem mem[OF le] mem[OF i] oky okj oki] by blast
        with True show False by blast
      qed
      then show "better ((l @ [y]) ! Suc (length xs)) ((l @ [y]) ! j)"
        using le by (simp add: old new)
    qed
    have d: "ok ((l @ [y]) ! Suc (length xs))" using oky by (simp add: new)
    show ?thesis
      unfolding ll using a b c d by (intro exI[of _ "Suc (length xs)"]) simp
  next
    case False
    have a: "py_best better x (xs @ [y]) = (l @ [y]) ! i"
      using False r i by (simp add: py_best_snoc old)
    have b: "\<forall>j \<le> length (xs @ [y]). \<not> better ((l @ [y]) ! j) ((l @ [y]) ! i)"
    proof (intro allI impI)
      fix j assume j: "j \<le> length (xs @ [y])"
      show "\<not> better ((l @ [y]) ! j) ((l @ [y]) ! i)"
      proof (cases "j \<le> length xs")
        case True
        then show ?thesis using nb i by (simp add: old)
      next
        case F: False
        with j have "j = Suc (length xs)" by simp
        then show ?thesis using False i by (simp add: old new)
      qed
    qed
    have c: "\<forall>j < i. ok ((l @ [y]) ! j) \<longrightarrow> better ((l @ [y]) ! i) ((l @ [y]) ! j)"
      using eb i by (simp add: old)
    have d: "ok ((l @ [y]) ! i)" using oki i by (simp add: old)
    show ?thesis
      unfolding ll using a b c d i by (intro exI[of _ i]) simp
  qed
qed

lemma py_best_min: "py_best float_lt (Some x) (map Some xs) = Some (Min (set (x # xs)))"
proof (induction xs arbitrary: x)
  case Nil
  show ?case by (simp add: py_best_def)
next
  case (Cons y ys)
  have "py_best float_lt (Some x) (map Some (y # ys)) = py_best float_lt (Some (min x y)) (map Some ys)"
    by (simp add: py_best_def min_def)
  also have "\<dots> = Some (Min (set (min x y # ys)))" by (rule Cons.IH)
  also have "Min (set (min x y # ys)) = Min (set (x # y # ys))"
    by (cases "ys = []") (simp_all add: min.assoc)
  finally show ?case .
qed

lemma py_best_max:
  "py_best (\<lambda>item best. float_lt best item) (Some x) (map Some xs) = Some (Max (set (x # xs)))"
proof (induction xs arbitrary: x)
  case Nil
  show ?case by (simp add: py_best_def)
next
  case (Cons y ys)
  have "py_best (\<lambda>item best. float_lt best item) (Some x) (map Some (y # ys))
        = py_best (\<lambda>item best. float_lt best item) (Some (max x y)) (map Some ys)"
    by (simp add: py_best_def max_def)
  also have "\<dots> = Some (Max (set (max x y # ys)))" by (rule Cons.IH)
  also have "Max (set (max x y # ys)) = Max (set (x # y # ys))"
    by (cases "ys = []") (simp_all add: max.assoc)
  finally show ?case .
qed

lemma those_map_Some: "those (map Some xs) = Some xs"
  by (induction xs) simp_all

lemma nan_mean_numbers: "nan_mean (map Some xs) = np_mean xs"
  by (simp add: nan_mean_def those_map_Some)

lemma map_of_collect_metric:
  "map_of (collect_metric am (k, v)) m =
     (if m = k then Some (old_values am k @ [v]) else map_of am m)"
  by (simp add: collect_metric_def old_values_def update_conv')

lemma map_of_collect_fold:
  "map_of (foldl collect_metric am ms) m =
     (if filter (\<lambda>kv. fst kv = m) ms = [] then map_of am m
      else Some (old_values am m @ map snd (filter (\<lambda>kv. fst kv = m) ms)))"
proof (induction ms arbitrary: am)
  case Nil
  show ?case by simp
next
  case (Cons kv ms)
  obtain k v where kv: "kv = (k, v)" by (cases kv)
  show ?case
    unfolding kv foldl_Cons Cons.IH
    by (auto simp: map_of_collect_metric old_values_def)
qed

lemma distinct_collect_fold:
  "distinct (map fst am) \<Longrightarrow> distinct (map fst (foldl collect_metric am ms))"
  by (induction ms arbitrary: am) (simp_all add: collect_metric_def distinct_update)

lemma collect_all_fold:
  "map_of (foldl (\<lambda>all_metrics (n, r). foldl collect_metric all_metrics (metrics r)) am rs) m =
     (if metric_values m rs = [] then map_of am m
      else Some (old_values am m @ metric_values m rs))"
proof (induction rs arbitrary: am)
  case Nil
  show ?case by (simp add: metric_values_def)
next
  case (Cons nr rs)
  obtain n r where nr: "nr = (n, r)" by (cases nr)
  have mv: "metric_values m ((n, r) # rs) = map snd (filter (\<lambda>kv. fst kv = m) (metrics r)) @ metric_values m rs"
    by (simp add: metric_values_def)
  show ?case
    unfolding nr foldl_Cons prod.case Cons.IH mv
    by (auto simp: map_of_collect_fold old_values_def)
qed

lemma map_of_collect_all:
  "map_of (collect_all_metrics rs) m =
     (if metric_values m rs = [] then None else Some (metric_values m rs))"
  unfolding collect_all_metrics_def collect_all_fold by (simp add: old_values_def)

lemma distinct_collect_all_fold:
  "distinct (map fst am) \<Longrightarrow>
   distinct (map fst (foldl (\<lambda>all_metrics (n, r). foldl collect_metric all_metrics (metrics r)) am rs))"
  by (induction rs arbitrary: am) (auto simp: distinct_collect_fold)

lemma distinct_collect_all: "distinct (map fst (collect_all_metrics rs))"
  unfolding collect_all_metrics_def by (rule distinct_collect_all_fold) simp

lemma collect_all_entry:
  assumes "(m, vs) \<in> set (collect_all_metrics rs)"
  shows "vs = metric_values m rs \<and> vs \<noteq> []"
proof -
  from assms have "map_of (collect_all_metrics rs) m = Some vs"
    using distinct_collect_all by (simp add: map_of_eq_Some_iff)
  then show ?thesis by (auto simp: map_of_collect_all split: if_splits)
qed
lemma summarise_metric_ok:
  "vs \<noteq> [] \<Longrightarrow>
   summarise_metric acc (m, vs) =
     Inr (AList.update (''best_'' @ m) (best_value m vs)
           (AList.update (''avg_'' @ m) (nan_mean vs) acc))"
  by (cases vs) (simp_all add: summarise_metric_def py_best_of_def best_value_def Let_def)

lemma summarise_metrics_result:
  assumes "\<forall>(m, vs) \<in> set entries. vs \<noteq> []" and "distinct (map fst entries)"
  shows "\<exists>res. summarise_metrics acc entries = Inr res \<and>
     (\<forall>m vs. (m, vs) \<in> set entries \<longrightarrow>
        map_of res (''avg_'' @ m) = Some (nan_mean vs) \<and>
        map_of res (''best_'' @ m) = Some (best_value m vs)) \<and>
     (\<forall>k. (\<forall>m \<in> fst ` set entries. k \<noteq> ''avg_'' @ m \<and> k \<noteq> ''best_'' @ m) \<longrightarrow>
        map_of res k = map_of acc k)"
  using assms
proof (induction entries arbitrary: acc)
  case Nil
  show ?case by simp
next
  case (Cons e rest)
  obtain m vs where e: "e = (m, vs)" by (cases e)
  have vs: "vs \<noteq> []" using Cons.prems(1) e by simp
  have fresh: "m \<notin> fst ` set rest" using Cons.prems(2) e by simp
  define acc' where "acc' = AList.update (''best_'' @ m) (best_value m vs)
           (AList.update (''avg_'' @ m) (nan_mean vs) acc)"
  have step: "summarise_metric acc e = Inr acc'"
    unfolding e acc'_def by (rule summarise_metric_ok[OF vs])
  have "\<exists>res. summarise_metrics acc' rest = Inr res \<and>
     (\<forall>m vs. (m, vs) \<in> set rest \<longrightarrow>
        map_of res (''avg_'' @ m) = Some (nan_mean vs) \<and>
        map_of res (''best_'' @ m) = Some (best_value m vs)) \<and>
     (\<forall>k. (\<forall>m \<in> fst ` set rest. k \<noteq> ''avg_'' @ m \<and> k \<noteq> ''best_'' @ m) \<longrightarrow>
        map_of res k = map_of acc' k)"
  proof (rule Cons.IH)
    show "\<forall>(m, vs) \<in> set rest. vs \<noteq> []" using Cons.prems(1) by simp
    show "distinct (map fst rest)" using Cons.prems(2) by simp
  qed
  then obtain res where res: "summarise_metrics acc' rest = Inr res"
    and inrest: "\<And>m vs. (m, vs) \<in> set rest \<Longrightarrow>
        map_of res (''avg_'' @ m) = Some (nan_mean vs) \<and>
        map_of res (''best_'' @ m) = Some (best_value m vs)"
    and other: "\<And>k. (\<forall>m \<in> fst ` set rest. k \<noteq> ''avg_'' @ m \<and> k \<noteq> ''best_'' @ m) \<Longrightarrow>
        map_of res k = map_of acc' k"
    by blast
  have total: "summarise_metrics acc (e # rest) = Inr res"
    by (simp add: step res)
  have avg: "map_of res (''avg_'' @ m) = Some (nan_mean vs)"
  proof -
    have "\<forall>m' \<in> fst ` set rest. ''avg_'' @ m \<noteq> ''avg_'' @ m' \<and> ''avg_'' @ m \<noteq> ''best_'' @ m'"
      using fresh by auto
    then have "map_of res (''avg_'' @ m) = map_of acc' (''avg_'' @ m)" by (rule other)
    also have "\<dots> = Some (nan_mean vs)" by (simp add: acc'_def update_conv')
    finally show ?thesis .
  qed
  have best: "map_of res (''best_'' @ m) = Some (best_value m vs)"
  proof -
    have "\<forall>m' \<in> fst ` set rest. ''best_'' @ m \<noteq> ''avg_'' @ m' \<and> ''best_'' @ m \<noteq> ''best_'' @ m'"
      using fresh by auto
    then have "map_of res (''best_'' @ m) = map_of acc' (''best_'' @ m)" by (rule other)
    also have "\<dots> = Some (best_value m vs)" by (simp add: acc'_def update_conv')
    finally show ?thesis .
  qed
  have all: "\<forall>m' vs'. (m', vs') \<in> set (e # rest) \<longrightarrow>
        map_of res (''avg_'' @ m') = Some (nan_mean vs') \<and>
        map_of res (''best_'' @ m') = Some (best_value m' vs')"
    using avg best inrest by (auto simp: e)
  have untouched: "\<forall>k. (\<forall>m' \<in> fst ` set (e # rest). k \<noteq> ''avg_'' @ m' \<and> k \<noteq> ''best_'' @ m') \<longrightarrow>
        map_of res k = map_of acc k"
  proof (intro allI impI)
    fix k assume k: "\<forall>m' \<in> fst ` set (e # rest). k \<noteq> ''avg_'' @ m' \<and> k \<noteq> ''best_'' @ m'"
    then have "\<forall>m' \<in> fst ` set rest. k \<noteq> ''avg_'' @ m' \<and> k \<noteq> ''best_'' @ m'" by simp
    then have "map_of res k = map_of acc' k" by (rule other)
    also have "\<dots> = map_of acc k"
      using k by (simp add: acc'_def update_conv' e)
    finally show "map_of res k = map_of acc k" .
  qed
  show ?case using total all untouched by blast
qed

lemma key_lt_irrefl: "\<not> key_lt k k"
  by (cases k) simp_all

lemma key_lt_trans: "key_lt a b \<Longrightarrow> key_lt b c \<Longrightarrow> key_lt a c"
  by (cases a; cases b; cases c) simp_all

lemma key_lt_negtrans:
  "a \<noteq> NaN \<Longrightarrow> b \<noteq> NaN \<Longrightarrow> c \<noteq> NaN \<Longrightarrow> \<not> key_lt a b \<Longrightarrow> \<not> key_lt b c \<Longrightarrow> \<not> key_lt a c"
  by (cases a; cases b; cases c) simp_all

lemma key_lt_nan: "\<not> key_lt NaN k" "\<not> key_lt k NaN"
  by (cases k; simp)+

lemma mape_key_nan: "mape_key_of r = NaN \<longleftrightarrow> map_of (metrics r) ''mape'' = Some None"
  by (simp add: mape_key_of_def split: option.splits)

lemma key_not_less:
  assumes "\<not> key_lt (mape_key_of rj) (mape_key_of ri)"
      and "map_of (metrics ri) ''mape'' \<noteq> Some None"
      and "map_of (metrics rj) ''mape'' = Some (Some v)"
  shows "\<exists>w. map_of (metrics ri) ''mape'' = Some (Some w) \<and> w \<le> v"
  using assms by (simp add: mape_key_of_def split: option.splits)

lemma key_less:
  assumes "key_lt (mape_key_of ri) (mape_key_of rj)"
  shows "\<exists>w. map_of (metrics ri) ''mape'' = Some (Some w) \<and>
           (map_of (metrics rj) ''mape'' = None \<or>
            (\<exists>v. map_of (metrics rj) ''mape'' = Some (Some v) \<and> w < v))"
  using assms by (simp add: mape_key_of_def split: option.splits)

lemma best_model_first_min:
  assumes ne: "(rs :: (string \<times> backtest_result) list) \<noteq> []"
      and first: "mape_of rs 0 \<noteq> Some None"
  shows "\<exists>b i. py_best_of (\<lambda>item best. key_lt (mape_key_of (snd item)) (mape_key_of (snd best))) rs = Inr b \<and>
           i < length rs \<and> b = rs ! i \<and> mape_of rs i \<noteq> Some None \<and>
           (\<forall>j < length rs. \<forall>v. mape_of rs j = Some (Some v) \<longrightarrow>
              (\<exists>w. mape_of rs i = Some (Some w) \<and> w \<le> v)) \<and>
           (\<forall>j < i. mape_of rs j = Some None \<or>
              (\<exists>w. mape_of rs i = Some (Some w) \<and>
                 (mape_of rs j = None \<or> (\<exists>v. mape_of rs j = Some (Some v) \<and> w < v))))"
proof -
  obtain x xs where rs: "rs = x # xs" using ne by (cases rs) auto
  define better where
    "better = (\<lambda>(item :: string \<times> backtest_result) (best :: string \<times> backtest_result).
                 key_lt (mape_key_of (snd item)) (mape_key_of (snd best)))"
  define ok where "ok = (\<lambda>(item :: string \<times> backtest_result). mape_key_of (snd item) \<noteq> NaN)"
  have okx: "ok x" using first by (simp add: ok_def mape_key_nan mape_of_def rs)
  have "\<exists>i \<le> length xs. py_best better x xs = (x # xs) ! i \<and> ok ((x # xs) ! i) \<and>
           (\<forall>j \<le> length xs. \<not> better ((x # xs) ! j) ((x # xs) ! i)) \<and>
           (\<forall>j < i. ok ((x # xs) ! j) \<longrightarrow> better ((x # xs) ! i) ((x # xs) ! j))"
  proof (rule py_best_first[where ok = ok, OF okx])
    fix a b :: "string \<times> backtest_result"
    assume "\<not> ok a"
    then show "\<not> better a b" by (simp add: ok_def better_def key_lt_nan)
  next
    fix a show "\<not> better a a" by (simp add: better_def key_lt_irrefl)
  next
    fix a b c assume "better a b" "better b c"
    then show "better a c" unfolding better_def by (rule key_lt_trans)
  next
    fix a b c assume "ok a" "ok b" "ok c" "\<not> better a b" "\<not> better b c"
    then show "\<not> better a c"
      unfolding better_def ok_def by (rule key_lt_negtrans)
  qed
  then obtain i where i: "i \<le> length xs" and b: "py_best better x xs = (x # xs) ! i"
    and oki: "ok ((x # xs) ! i)"
    and nb: "\<forall>j \<le> length xs. \<not> better ((x # xs) ! j) ((x # xs) ! i)"
    and eb: "\<forall>j < i. ok ((x # xs) ! j) \<longrightarrow> better ((x # xs) ! i) ((x # xs) ! j)"
    by blast
  have best: "py_best_of better rs = Inr (rs ! i)"
    by (simp add: py_best_of_def rs b)
  have il: "i < length rs" using i rs by simp
  have num: "mape_of rs i \<noteq> Some None"
    using oki by (simp add: ok_def mape_key_nan mape_of_def rs)
  have minimal: "\<forall>j < length rs. \<forall>v. mape_of rs j = Some (Some v) \<longrightarrow>
              (\<exists>w. mape_of rs i = Some (Some w) \<and> w \<le> v)"
  proof (intro allI impI)
    fix j v assume j: "j < length rs" and v: "mape_of rs j = Some (Some v)"
    from j rs have "j \<le> length xs" by simp
    with nb have "\<not> better (rs ! j) (rs ! i)" by (simp add: rs)
    then have "\<not> key_lt (mape_key_of (snd (rs ! j))) (mape_key_of (snd (rs ! i)))"
      by (simp add: better_def)
    then show "\<exists>w. mape_of rs i = Some (Some w) \<and> w \<le> v"
      unfolding mape_of_def
      by (rule key_not_less) (use num v in \<open>simp_all add: mape_of_def\<close>)
  qed
  have earlier: "\<forall>j < i. mape_of rs j = Some None \<or>
              (\<exists>w. mape_of rs i = Some (Some w) \<and>
                 (mape_of rs j = None \<or> (\<exists>v. mape_of rs j = Some (Some v) \<and> w < v)))"
  proof (intro allI impI)
    fix j assume j: "j < i"
    show "mape_of rs j = Some None \<or>
              (\<exists>w. mape_of rs i = Some (Some w) \<and>
                 (mape_of rs j = None \<or> (\<exists>v. mape_of rs j = Some (Some v) \<and> w < v)))"
    proof (cases "mape_of rs j = Some None")
      case True
      then show ?thesis by (rule disjI1)
    next
      case False
      then have "ok (rs ! j)" by (simp add: ok_def mape_key_nan mape_of_def)
      with eb j have "better (rs ! i) (rs ! j)" by (simp add: rs)
      then have "key_lt (mape_key_of (snd (rs ! i))) (mape_key_of (snd (rs ! j)))"
        by (simp add: better_def)
      then have "\<exists>w. mape_of rs i = Some (Some w) \<and>
                 (mape_of rs j = None \<or> (\<exists>v. mape_of rs j = Some (Some v) \<and> w < v))"
        unfolding mape_of_def by (rule key_less)
      then show ?thesis by (rule disjI2)
    qed
  qed
  show ?thesis
    using best il num minimal earlier unfolding better_def
    by (intro exI[of _ "rs ! i"] exI[of _ i] conjI) simp_all
qed

lemma best_model_first_nan:
  assumes ne: "(rs :: (string \<times> backtest_result) list) \<noteq> []"
      and first: "mape_of rs 0 = Some None"
  shows "py_best_of (\<lambda>item best. key_lt (mape_key_of (snd item)) (mape_key_of (snd best))) rs
           = Inr (rs ! 0)"
proof -
  obtain x xs where rs: "rs = x # xs" using ne by (cases rs) auto
  have "mape_key_of (snd x) = NaN" using first by (simp add: mape_key_nan mape_of_def rs)
  then have "\<forall>y \<in> set xs. \<not> key_lt (mape_key_of (snd y)) (mape_key_of (snd x))"
    by (simp add: key_lt_nan)
  then have "py_best (\<lambda>item best. key_lt (mape_key_of (snd item)) (mape_key_of (snd best))) x xs = x"
    by (rule py_best_keeps_first)
  then show ?thesis by (simp add: py_best_of_def rs)
qed

lemma best_value_numbers:
  "xs \<noteq> [] \<Longrightarrow>
   best_value m (map Some xs) =
     Some (if m = ''mae'' \<or> m = ''rmse'' \<or> m = ''mape'' then Min (set xs) else Max (set xs))"
proof -
  assume xne: "xs \<noteq> []"
  have e: "(m = ''mae'' \<or> m = ''rmse'' \<or> m = ''mape'') = (m \<in> set error_metrics)"
    by (simp add: error_metrics_def)
  show ?thesis
    unfolding e using xne by (cases xs) (simp_all add: best_value_def py_best_min py_best_max)
qed

lemma nan_mean_nan: "None \<in> set vs \<Longrightarrow> nan_mean vs = None"
proof -
  have "None \<in> set vs \<Longrightarrow> those vs = None"
    by (induction vs) (auto split: option.splits)
  then show "None \<in> set vs \<Longrightarrow> nan_mean vs = None" by (simp add: nan_mean_def)
qed

lemma py_best_of_nonempty: "xs \<noteq> [] \<Longrightarrow> \<exists>b. py_best_of better xs = Inr b"
  by (cases xs) (simp_all add: py_best_of_def)

text \<open>
  C4. For every non-empty dictionary of per-model results the statistics exist. For a
  metric \<open>m\<close> whose values across the models are the numbers \<open>xs\<close>, the summary holds their
  average under \<open>avg_m\<close> and under \<open>best_m\<close> their minimum when \<open>m\<close> is mae, rmse or mape
  and their maximum otherwise; the average is NaN when one of the values is NaN, and a
  metric that no model has gets no entry. The best model is the first one, in iteration
  order, of minimal MAPE, a missing MAPE counting as infinity: every MAPE is at least
  that of the best model, and every earlier model has a strictly greater MAPE (or none
  while the best model has one). A model whose MAPE is NaN is passed over, except that
  it is kept when it is the first one (a comparison with NaN is false); the backtest of
  a model produces no NaN.
\<close>

theorem overall_stats_aggregate:
  assumes ne: "(rs :: (string \<times> backtest_result) list) \<noteq> []"
  shows "\<exists>stats. calculate_overall_stats rs = Some stats \<and>
     total_models stats = length rs \<and>
     (\<forall>m xs. metric_values m rs = map Some xs \<and> xs \<noteq> [] \<longrightarrow>
        map_of (summary_metrics stats) (''avg_'' @ m) = Some (Some (sum_list xs / real (length xs))) \<and>
        map_of (summary_metrics stats) (''best_'' @ m) =
          Some (Some (if m = ''mae'' \<or> m = ''rmse'' \<or> m = ''mape'' then Min (set xs) else Max (set xs)))) \<and>
     (\<forall>m. None \<in> set (metric_values m rs) \<longrightarrow>
        map_of (summary_metrics stats) (''avg_'' @ m) = Some None) \<and>
     (\<forall>m. metric_values m rs = [] \<longrightarrow>
        map_of (summary_metrics stats) (''avg_'' @ m) = None \<and>
        map_of (summary_metrics stats) (''best_'' @ m) = None) \<and>
     (mape_of rs 0 = Some None \<longrightarrow> best_model stats = fst (rs ! 0)) \<and>
     (mape_of rs 0 \<noteq> Some None \<longrightarrow>
        (\<exists>i < length rs.
           best_model stats = fst (rs ! i) \<and> mape_of rs i \<noteq> Some None \<and>
           (\<forall>j < length rs. \<forall>v. mape_of rs j = Some (Some v) \<longrightarrow>
              (\<exists>w. mape_of rs i = Some (Some w) \<and> w \<le> v)) \<and>
           (\<forall>j < i. mape_of rs j = Some None \<or>
              (\<exists>w. mape_of rs i = Some (Some w) \<and>
                 (mape_of rs j = None \<or> (\<exists>v. mape_of rs j = Some (Some v) \<and> w < v))))))"
proof -
  have entries: "\<forall>(m, vs) \<in> set (collect_all_metrics rs). vs \<noteq> []"
    using collect_all_entry by blast
  from summarise_metrics_result[OF entries distinct_collect_all, of "[]"]
  obtain res where res: "summarise_metrics [] (collect_all_metrics rs) = Inr res"
    and inres_all: "\<forall>m vs. (m, vs) \<in> set (collect_all_metrics rs) \<longrightarrow>
        map_of res (''avg_'' @ m) = Some (nan_mean vs) \<and>
        map_of res (''best_'' @ m) = Some (best_value m vs)"
    and other_all: "\<forall>k. (\<forall>m \<in> fst ` set (collect_all_metrics rs). k \<noteq> ''avg_'' @ m \<and> k \<noteq> ''best_'' @ m) \<longrightarrow>
        map_of res k = map_of [] k"
    by (elim exE conjE)
  note inres = inres_all[rule_format]
  note other = other_all[THEN spec, THEN mp]
  obtain b where b: "py_best_of (\<lambda>item best. key_lt (mape_key_of (snd item)) (mape_key_of (snd best))) rs = Inr b"
    using py_best_of_nonempty[OF ne] by blast
  have ne1: "map (\<lambda>(name, r). period_start r) rs \<noteq> []" using ne by simp
  have ne2: "map (\<lambda>(name, r). period_end r) rs \<noteq> []" using ne by simp
  obtain start where start: "py_best_of (<) (map (\<lambda>(name, r). period_start r) rs) = Inr start"
    using py_best_of_nonempty[OF ne1] by blast
  obtain stop where stop: "py_best_of (>) (map (\<lambda>(name, r). period_end r) rs) = Inr stop"
    using py_best_of_nonempty[OF ne2] by blast
  define stats where "stats = \<lparr>summary_metrics = res, best_model = fst b, total_models = length rs,
      evaluation_start = start, evaluation_end = stop\<rparr>"
  have calc: "calculate_overall_stats rs = Some stats"
    by (simp add: calculate_overall_stats_def overall_stats_body_def res b start stop stats_def)
  have total: "total_models stats = length rs" by (simp add: stats_def)
  have sm: "summary_metrics stats = res" by (simp add: stats_def)
  have bm: "best_model stats = fst b" by (simp add: stats_def)
  have present: "(m, metric_values m rs) \<in> set (collect_all_metrics rs)"
    if "metric_values m rs \<noteq> []" for m
  proof -
    have "map_of (collect_all_metrics rs) m = Some (metric_values m rs)"
      using that by (simp add: map_of_collect_all)
    then show ?thesis by (rule map_of_SomeD)
  qed
  have numbers: "\<forall>m xs. metric_values m rs = map Some xs \<and> xs \<noteq> [] \<longrightarrow>
        map_of (summary_metrics stats) (''avg_'' @ m) = Some (Some (sum_list xs / real (length xs))) \<and>
        map_of (summary_metrics stats) (''best_'' @ m) =
          Some (Some (if m = ''mae'' \<or> m = ''rmse'' \<or> m = ''mape'' then Min (set xs) else Max (set xs)))"
  proof (intro allI impI)
    fix m xs assume h: "metric_values m rs = map Some xs \<and> xs \<noteq> []"
    from h have xs: "metric_values m rs = map Some xs" by (rule conjunct1)
    from h have xne: "xs \<noteq> []" by (rule conjunct2)
    have mv: "metric_values m rs \<noteq> []" unfolding xs using xne by simp
    have both: "map_of res (''avg_'' @ m) = Some (nan_mean (metric_values m rs)) \<and>
        map_of res (''best_'' @ m) = Some (best_value m (metric_values m rs))"
      by (rule inres[OF present[OF mv]])
    have mean: "nan_mean (map Some xs) = Some (sum_list xs / real (length xs))"
      unfolding nan_mean_numbers using xne by (simp add: np_mean_def)
    have avg: "map_of res (''avg_'' @ m) = Some (Some (sum_list xs / real (length xs)))"
      using both unfolding xs mean by (rule conjunct1)
    have best: "map_of res (''best_'' @ m) =
        Some (Some (if m = ''mae'' \<or> m = ''rmse'' \<or> m = ''mape'' then Min (set xs) else Max (set xs)))"
      using both unfolding xs best_value_numbers[OF xne] by (rule conjunct2)
    show "map_of (summary_metrics stats) (''avg_'' @ m) = Some (Some (sum_list xs / real (length xs))) \<and>
        map_of (summary_metrics stats) (''best_'' @ m) =
          Some (Some (if m = ''mae'' \<or> m = ''rmse'' \<or> m = ''mape'' then Min (set xs) else Max (set xs)))"
      unfolding sm using avg best by (rule conjI)
  qed
  have nans: "\<forall>m. None \<in> set (metric_values m rs) \<longrightarrow>
        map_of (summary_metrics stats) (''avg_'' @ m) = Some None"
  proof (intro allI impI)
    fix m assume n: "None \<in> set (metric_values m rs)"
    have mv: "metric_values m rs \<noteq> []"
    proof
      assume "metric_values m rs = []"
      with n show False by simp
    qed
    have both: "map_of res (''avg_'' @ m) = Some (nan_mean (metric_values m rs)) \<and>
        map_of res (''best_'' @ m) = Some (best_value m (metric_values m rs))"
      by (rule inres[OF present[OF mv]])
    show "map_of (summary_metrics stats) (''avg_'' @ m) = Some None"
      unfolding sm using both unfolding nan_mean_nan[OF n] by (rule conjunct1)
  qed
  have absent: "\<forall>m. metric_values m rs = [] \<longrightarrow>
        map_of (summary_metrics stats) (''avg_'' @ m) = None \<and>
        map_of (summary_metrics stats) (''best_'' @ m) = None"
  proof (intro allI impI)
    fix m assume e: "metric_values m rs = []"
    have diff: "m' \<noteq> m" if "m' \<in> fst ` set (collect_all_metrics rs)" for m'
    proof -
      from that obtain vs where "(m', vs) \<in> set (collect_all_metrics rs)" by auto
      then have entry: "vs = metric_values m' rs \<and> vs \<noteq> []" by (rule collect_all_entry)
      from entry have veq: "vs = metric_values m' rs" by (rule conjunct1)
      from entry have vne: "vs \<noteq> []" by (rule conjunct2)
      have mv': "metric_values m' rs \<noteq> []" using vne unfolding veq .
      show "m' \<noteq> m"
      proof
        assume "m' = m"
        with mv' e show False by simp
      qed
    qed
    have "\<forall>m' \<in> fst ` set (collect_all_metrics rs).
            ''avg_'' @ m \<noteq> ''avg_'' @ m' \<and> ''avg_'' @ m \<noteq> ''best_'' @ m'"
    proof
      fix m' assume "m' \<in> fst ` set (collect_all_metrics rs)"
      then have "m' \<noteq> m" by (rule diff)
      then show "''avg_'' @ m \<noteq> ''avg_'' @ m' \<and> ''avg_'' @ m \<noteq> ''best_'' @ m'" by simp
    qed
    then have a: "map_of res (''avg_'' @ m) = map_of [] (''avg_'' @ m)" by (rule other)
    have "\<forall>m' \<in> fst ` set (collect_all_metrics rs).
            ''best_'' @ m \<noteq> ''avg_'' @ m' \<and> ''best_'' @ m \<noteq> ''best_'' @ m'"
    proof
      fix m' assume "m' \<in> fst ` set (collect_all_metrics rs)"
      then have "m' \<noteq> m" by (rule diff)
      then show "''best_'' @ m \<noteq> ''avg_'' @ m' \<and> ''best_'' @ m \<noteq> ''best_'' @ m'" by simp
    qed
    then have b: "map_of res (''best_'' @ m) = map_of [] (''best_'' @ m)" by (rule other)
    show "map_of (summary_metrics stats) (''avg_'' @ m) = None \<and>
        map_of (summary_metrics stats) (''best_'' @ m) = None"
      unfolding sm a b by simp
  qed
  have first_nan: "mape_of rs 0 = Some None \<longrightarrow> best_model stats = fst (rs ! 0)"
  proof
    assume "mape_of rs 0 = Some None"
    from best_model_first_nan[OF ne this] b have "b = rs ! 0" by simp
    then show "best_model stats = fst (rs ! 0)" unfolding bm by (rule arg_cong)
  qed
  have first_min: "mape_of rs 0 \<noteq> Some None \<longrightarrow>
        (\<exists>i < length rs.
           best_model stats = fst (rs ! i) \<and> mape_of rs i \<noteq> Some None \<and>
           (\<forall>j < length rs. \<forall>v. mape_of rs j = Some (Some v) \<longrightarrow>
              (\<exists>w. mape_of rs i = Some (Some w) \<and> w \<le> v)) \<and>
           (\<forall>j < i. mape_of rs j = Some None \<or>
              (\<exists>w. mape_of rs i = Some (Some w) \<and>
                 (mape_of rs j = None \<or> (\<exists>v. mape_of rs j = Some (Some v) \<and> w < v)))))"
  proof
    assume "mape_of rs 0 \<noteq> Some None"
    from best_model_first_min[OF ne this] obtain b' i where
      b': "py_best_of (\<lambda>item best. key_lt (mape_key_of (snd item)) (mape_key_of (snd best))) rs = Inr b'"
      and i: "i < length rs" and bi: "b' = rs ! i" and num: "mape_of rs i \<noteq> Some None"
      and minimal: "\<forall>j < length rs. \<forall>v. mape_of rs j = Some (Some v) \<longrightarrow>
              (\<exists>w. mape_of rs i = Some (Some w) \<and> w \<le> v)"
      and earlier: "\<forall>j < i. mape_of rs j = Some None \<or>
              (\<exists>w. mape_of rs i = Some (Some w) \<and>
                 (mape_of rs j = None \<or> (\<exists>v. mape_of rs j = Some (Some v) \<and> w < v)))"
      by (elim exE conjE)
    from b b' bi have "b = rs ! i" by simp
    then have bmi: "best_model stats = fst (rs ! i)" unfolding bm by (rule arg_cong)
    show "\<exists>i < length rs.
           best_model stats = fst (rs ! i) \<and> mape_of rs i \<noteq> Some None \<and>
           (\<forall>j < length rs. \<forall>v. mape_of rs j = Some (Some v) \<longrightarrow>
              (\<exists>w. mape_of rs i = Some (Some w) \<and> w \<le> v)) \<and>
           (\<forall>j < i. mape_of rs j = Some None \<or>
              (\<exists>w. mape_of rs i = Some (Some w) \<and>
                 (mape_of rs j = None \<or> (\<exists>v. mape_of rs j = Some (Some v) \<and> w < v))))"
      using i bmi num minimal earlier by (intro exI[of _ i] conjI)
  qed
  show ?thesis
    using calc total numbers nans absent first_nan first_min
    by (intro exI[of _ stats] conjI)
qed

text \<open>
  In the example the MAPE values are 5, 1, 1 and none: the second model is the best
  one, ahead of the third, which has the same MAPE. The best values are the minima of
  mae, rmse and mape and the maximum of sharpe.
\<close>

theorem overall_stats_aggregate_witness:
  "example_results \<noteq> [] \<and>
   (\<exists>stats. calculate_overall_stats example_results = Some stats \<and>
      best_model stats = ''lstm'' \<and>
      map_of (summary_metrics stats) ''avg_mae'' = Some (Some (5 / 2)) \<and>
      map_of (summary_metrics stats) ''best_mae'' = Some (Some 1) \<and>
      map_of (summary_metrics stats) ''best_rmse'' = Some (Some 2) \<and>
      map_of (summary_metrics stats) ''avg_mape'' = Some (Some (7 / 3)) \<and>
      map_of (summary_metrics stats) ''best_mape'' = Some (Some 1) \<and>
      map_of (summary_metrics stats) ''best_sharpe'' = Some (Some 2))"
proof -
  have ne: "example_results \<noteq> []" by (simp add: example_results_def)
  from overall_stats_aggregate[OF ne] obtain stats where
        calc: "calculate_overall_stats example_results = Some stats"
    and pm: "\<forall>m xs. metric_values m example_results = map Some xs \<and> xs \<noteq> [] \<longrightarrow>
        map_of (summary_metrics stats) (''avg_'' @ m) = Some (Some (sum_list xs / real (length xs))) \<and>
        map_of (summary_metrics stats) (''best_'' @ m) =
          Some (Some (if m = ''mae'' \<or> m = ''rmse'' \<or> m = ''mape'' then Min (set xs) else Max (set xs)))"
    and fm: "mape_of example_results 0 \<noteq> Some None \<longrightarrow>
        (\<exists>i < length example_results.
           best_model stats = fst (example_results ! i) \<and> mape_of example_results i \<noteq> Some None \<and>
           (\<forall>j < length example_results. \<forall>v. mape_of example_results j = Some (Some v) \<longrightarrow>
              (\<exists>w. mape_of example_results i = Some (Some w) \<and> w \<le> v)) \<and>
           (\<forall>j < i. mape_of example_results j = Some None \<or>
              (\<exists>w. mape_of example_results i = Some (Some w) \<and>
                 (mape_of example_results j = None \<or>
                  (\<exists>v. mape_of example_results j = Some (Some v) \<and> w < v)))))"
    by (elim exE conjE)
  have m0: "mape_of example_results 0 = Some (Some 5)"
    by (simp add: mape_of_def example_results_def)
  have m1: "mape_of example_results 1 = Some (Some 1)"
    by (simp add: mape_of_def example_results_def)
  have m2: "mape_of example_results 2 = Some (Some 1)"
    by (simp add: mape_of_def example_results_def)
  have m3: "mape_of example_results 3 = None"
    by (simp add: mape_of_def example_results_def)
  have len: "length example_results = 4" by (simp add: example_results_def)
  have "mape_of example_results 0 \<noteq> Some None" unfolding m0 by simp
  with fm obtain i where i: "i < length example_results"
    and bm: "best_model stats = fst (example_results ! i)"
    and minimal: "\<forall>j < length example_results. \<forall>v. mape_of example_results j = Some (Some v) \<longrightarrow>
              (\<exists>w. mape_of example_results i = Some (Some w) \<and> w \<le> v)"
    and earlier: "\<forall>j < i. mape_of example_results j = Some None \<or>
              (\<exists>w. mape_of example_results i = Some (Some w) \<and>
                 (mape_of example_results j = None \<or>
                  (\<exists>v. mape_of example_results j = Some (Some v) \<and> w < v)))"
    by blast
  have "1 < length example_results" unfolding len by simp
  with minimal m1 have small: "\<exists>w. mape_of example_results i = Some (Some w) \<and> w \<le> 1"
    by blast
  have "i \<noteq> 0"
  proof
    assume "i = 0"
    with small m0 show False by auto
  qed
  moreover have "i \<noteq> 3"
  proof
    assume "i = 3"
    with small m3 show False by auto
  qed
  moreover have "i \<noteq> 2"
  proof
    assume i2: "i = 2"
    then have "(1::nat) < i" by simp
    with earlier have "mape_of example_results 1 = Some None \<or>
              (\<exists>w. mape_of example_results i = Some (Some w) \<and>
                 (mape_of example_results 1 = None \<or>
                  (\<exists>v. mape_of example_results 1 = Some (Some v) \<and> w < v)))"
      by blast
    then show False unfolding i2 m1 m2 by auto
  qed
  ultimately have "i = 1" using i len by arith
  then have best: "best_model stats = ''lstm''"
    using bm by (simp add: example_results_def)
  have mae: "metric_values ''mae'' example_results = map Some [2, 4, 1, 3] \<and> [2, 4, 1, 3 :: real] \<noteq> []"
    by (simp add: metric_values_def example_results_def)
  have rmse: "metric_values ''rmse'' example_results = map Some [3, 2] \<and> [3, 2 :: real] \<noteq> []"
    by (simp add: metric_values_def example_results_def)
  have mape: "metric_values ''mape'' example_results = map Some [5, 1, 1] \<and> [5, 1, 1 :: real] \<noteq> []"
    by (simp add: metric_values_def example_results_def)
  have sharpe: "metric_values ''sharpe'' example_results = map Some [1, 2] \<and> [1, 2 :: real] \<noteq> []"
    by (simp add: metric_values_def example_results_def)
  have a: "map_of (summary_metrics stats) ''avg_mae'' = Some (Some (5 / 2))"
      "map_of (summary_metrics stats) ''best_mae'' = Some (Some 1)"
    using pm[rule_format, OF mae] by simp_all
  have b: "map_of (summary_metrics stats) ''best_rmse'' = Some (Some 2)"
    using pm[rule_format, OF rmse] by simp
  have c: "map_of (summary_metrics stats) ''avg_mape'' = Some (Some (7 / 3))"
      "map_of (summary_metrics stats) ''best_mape'' = Some (Some 1)"
    using pm[rule_format, OF mape] by simp_all
  have d: "map_of (summary_metrics stats) ''best_sharpe'' = Some (Some 2)"
    using pm[rule_format, OF sharpe] by simp
  have "\<exists>stats. calculate_overall_stats example_results = Some stats \<and>
      best_model stats = ''lstm'' \<and>
      map_of (summary_metrics stats) ''avg_mae'' = Some (Some (5 / 2)) \<and>
      map_of (summary_metrics stats) ''best_mae'' = Some (Some 1) \<and>
      map_of (summary_metrics stats) ''best_rmse'' = Some (Some 2) \<and>
      map_of (summary_metrics stats) ''avg_mape'' = Some (Some (7 / 3)) \<and>
      map_of (summary_metrics stats) ''best_mape'' = Some (Some 1) \<and>
      map_of (summary_metrics stats) ''best_sharpe'' = Some (Some 2)"
    using calc best a b c d by (intro exI[of _ stats] conjI)
  with ne show ?thesis by (rule conjI)
qed

section \<open>The synthetic backtest does not depend on the model\<close>

lemma backtest_model_name:
  "backtest_model fp gauss now n pd wd hz ms =
     map_sum id (\<lambda>r. r\<lparr>model_name := n\<rparr>) (backtest_model fp gauss now [] pd wd hz ms)"
  by (simp add: backtest_model_def Let_def split: sum.splits)

lemma backtest_model_seed:
  "gauss' 42 = gauss 42 \<Longrightarrow>
   backtest_model fp gauss' now n pd wd hz ms = backtest_model fp gauss now n pd wd hz ms"
  by (simp add: backtest_model_def)

lemma backtest_loop_seed:
  assumes "gauss' 42 = gauss 42"
  shows "backtest_loop fp gauss' now pd wd hz ms names acc = backtest_loop fp gauss now pd wd hz ms names acc"
proof (induction names arbitrary: acc)
  case Nil
  show ?case by simp
next
  case (Cons n names)
  have "backtest_model fp gauss' now n pd wd hz ms = backtest_model fp gauss now n pd wd hz ms"
    by (rule backtest_model_seed[where gauss' = gauss' and gauss = gauss, OF assms])
  then show ?case by (simp add: Cons.IH split: sum.splits)
qed

lemma update_fresh: "k \<notin> fst ` set al \<Longrightarrow> AList.update k v al = al @ [(k, v)]"
  by (induction al) auto

lemma backtest_loop_ok:
  assumes r: "backtest_model fp gauss now [] pd wd hz ms = Inr r"
      and d: "distinct names" and fresh: "set names \<inter> fst ` set acc = {}"
  shows "backtest_loop fp gauss now pd wd hz ms names acc =
           Inr (acc @ map (\<lambda>n. (n, r\<lparr>model_name := n\<rparr>)) names)"
  using d fresh
proof (induction names arbitrary: acc)
  case Nil
  show ?case by simp
next
  case (Cons n names)
  have one: "backtest_model fp gauss now n pd wd hz ms = Inr (r\<lparr>model_name := n\<rparr>)"
    by (subst backtest_model_name) (simp add: r)
  have nf: "n \<notin> fst ` set acc" using Cons.prems(2) by auto
  have upd: "AList.update n (r\<lparr>model_name := n\<rparr>) acc = acc @ [(n, r\<lparr>model_name := n\<rparr>)]"
    by (rule update_fresh[OF nf])
  have "backtest_loop fp gauss now pd wd hz ms names (acc @ [(n, r\<lparr>model_name := n\<rparr>)]) =
          Inr ((acc @ [(n, r\<lparr>model_name := n\<rparr>)]) @ map (\<lambda>n. (n, r\<lparr>model_name := n\<rparr>)) names)"
  proof (rule Cons.IH)
    show "distinct names" using Cons.prems(1) by simp
    show "set names \<inter> fst ` set (acc @ [(n, r\<lparr>model_name := n\<rparr>)]) = {}"
      using Cons.prems by auto
  qed
  then show ?case by (simp add: one upd)
qed


lemma actual_prices_positive:
  "0 < p \<Longrightarrow> \<forall>i. - 50 < z i \<Longrightarrow> \<forall>x \<in> set (actual_prices_loop z i n p). 0 < x"
proof (induction n arbitrary: i p)
  case 0
  show ?case by simp
next
  case (Suc n)
  have "- 50 < z i" using Suc.prems(2) by blast
  then have "0 < 1 + gauss_draw z i 0.001 0.02" by (simp add: gauss_draw_def)
  with Suc.prems(1) have p': "0 < p * (1 + gauss_draw z i 0.001 0.02)" by (rule mult_pos_pos)
  from Suc.IH[OF p' Suc.prems(2)] p' show ?case by (simp add: Let_def)
qed

lemma actual_prices_length: "length (actual_prices_loop z i n p) = n"
  by (induction n arbitrary: i p) (simp_all add: Let_def)

lemma predictions_loop_ok:
  "\<forall>x \<in> set xs. 0 < x \<Longrightarrow> \<exists>ps. predictions_loop z i xs = Inr ps"
proof (induction xs arbitrary: i)
  case Nil
  show ?case by simp
next
  case (Cons x xs)
  then obtain ps where "predictions_loop z (Suc i) xs = Inr ps" by fastforce
  moreover have "0 < x" using Cons.prems by simp
  ultimately show ?case by (simp add: np_random_normal_def)
qed

lemma compute_metrics_ok:
  assumes "\<forall>a \<in> set actual. 0 < a"
  shows "\<exists>m. compute_metrics fp ms actual predicted errs = Inr m"
proof -
  have "\<forall>a \<in> set (butlast actual). a \<noteq> 0"
    using assms by (auto dest: in_set_butlastD)
  then have "\<exists>s. sharpe_ratio fp actual = Inr s"
    by (simp add: sharpe_ratio_def price_returns_ok)
  then show ?thesis by (auto simp: compute_metrics_def Let_def)
qed

lemma backtest_model_ok:
  assumes "\<forall>i. - 50 < gauss 42 i"
  shows "\<exists>r. backtest_model fp gauss now n pd wd hz ms = Inr r"
proof -
  define dates where "dates = date_range (today now - int pd) (today now)"
  define actual where "actual = actual_prices_loop (gauss 42) 0 (length dates) 180"
  have pos: "\<forall>a \<in> set actual. 0 < a"
    unfolding actual_def by (rule actual_prices_positive[OF _ assms]) simp
  obtain ps where ps: "predictions_loop (gauss 42) (length dates) actual = Inr ps"
    using predictions_loop_ok[OF pos] by blast
  obtain m where m: "compute_metrics fp ms actual (map fst ps) (map snd ps) = Inr m"
    using compute_metrics_ok[OF pos] by blast
  show ?thesis
    by (simp add: backtest_model_def Let_def dates_def[symmetric] actual_def[symmetric] ps m)
qed

lemma overall_stats_same_key:
  assumes ne: "(rs :: (string \<times> backtest_result) list) \<noteq> []"
      and same: "\<forall>(n, r) \<in> set rs. mape_key_of r = k"
  shows "\<exists>stats. calculate_overall_stats rs = Some stats \<and> best_model stats = fst (hd rs)"
proof -
  have entries: "\<forall>(m, vs) \<in> set (collect_all_metrics rs). vs \<noteq> []"
    using collect_all_entry by blast
  obtain res where res: "summarise_metrics [] (collect_all_metrics rs) = Inr res"
    using summarise_metrics_result[OF entries distinct_collect_all, of "[]"] by blast
  obtain x xs where rs: "rs = x # xs" using ne by (cases rs) auto
  have "\<forall>y \<in> set xs. \<not> key_lt (mape_key_of (snd y)) (mape_key_of (snd x))"
  proof
    fix y assume "y \<in> set xs"
    then have "mape_key_of (snd y) = k" using same rs by (cases y) auto
    moreover have "mape_key_of (snd x) = k" using same rs by (cases x) auto
    ultimately show "\<not> key_lt (mape_key_of (snd y)) (mape_key_of (snd x))"
      by (simp add: key_lt_irrefl)
  qed
  then have "py_best (\<lambda>item best. key_lt (mape_key_of (snd item)) (mape_key_of (snd best))) x xs = x"
    by (rule py_best_keeps_first)
  then have b: "py_best_of (\<lambda>item best. key_lt (mape_key_of (snd item)) (mape_key_of (snd best))) rs = Inr x"
    by (simp add: py_best_of_def rs)
  have ne1: "map (\<lambda>(name, r). period_start r) rs \<noteq> []" using ne by simp
  have ne2: "map (\<lambda>(name, r). period_end r) rs \<noteq> []" using ne by simp
  obtain start where start: "py_best_of (<) (map (\<lambda>(name, r). period_start r) rs) = Inr start"
    using py_best_of_nonempty[OF ne1] by blast
  obtain stop where stop: "py_best_of (>) (map (\<lambda>(name, r). period_end r) rs) = Inr stop"
    using py_best_of_nonempty[OF ne2] by blast
  have "calculate_overall_stats rs =
          Some \<lparr>summary_metrics = res, best_model = fst x, total_models = length rs,
                 evaluation_start = start, evaluation_end = stop\<rparr>"
    by (simp add: calculate_overall_stats_def overall_stats_body_def res b start stop)
  moreover have "fst x = fst (hd rs)" by (simp add: rs)
  ultimately show ?thesis by simp
qed

text \<open>
  C9. Every evaluation reseeds the generator with 42, so the backtest of a model is a
  function of the draws after that seed and of nothing else about the generator, and it
  uses the model's name only to label the result. When the draws keep the synthetic
  prices positive the batch returns, every requested model receives the same result up
  to that label (the same metrics and the same rolling accuracy), and the best model
  reported is the first model in iteration order.
\<close>

theorem run_backtest_identical_models:
  assumes a: "registry aid = Some a"
      and ne: "models a \<noteq> []"
      and d: "distinct (map fst (models a))"
      and pos: "\<forall>i. - 50 < gauss 42 i"
  shows "\<exists>out r stats.
           run_backtest fp gauss now aid p w h ms registry = Inr out \<and>
           backtest_model fp gauss now [] (parse_period p) (parse_period w) (parse_period h) ms = Inr r \<and>
           backtest_results out = map (\<lambda>(n, x). (n, r\<lparr>model_name := n\<rparr>)) (models a) \<and>
           overall out = Some stats \<and>
           best_model stats = fst (hd (models a)) \<and>
           (\<forall>gauss'. gauss' 42 = gauss 42 \<longrightarrow>
              run_backtest fp gauss' now aid p w h ms registry = Inr out)"
proof -
  obtain r where r: "backtest_model fp gauss now [] (parse_period p) (parse_period w) (parse_period h) ms = Inr r"
    using backtest_model_ok[where gauss = gauss, OF pos] by blast
  define rs where "rs = map (\<lambda>n. (n, r\<lparr>model_name := n\<rparr>)) (map fst (models a))"
  have loop: "backtest_loop fp gauss now (parse_period p) (parse_period w) (parse_period h) ms
                (map fst (models a)) [] = Inr rs"
    using backtest_loop_ok[OF r d, of "[]"] by (simp add: rs_def)
  have rs_eq: "rs = map (\<lambda>(n, x). (n, r\<lparr>model_name := n\<rparr>)) (models a)"
    by (simp add: rs_def comp_def case_prod_beta)
  have rne: "rs \<noteq> []" using ne by (simp add: rs_def)
  have same: "\<forall>(n, x) \<in> set rs. mape_key_of x = mape_key_of r"
    by (auto simp: rs_def mape_key_of_def)
  obtain stats where st: "calculate_overall_stats rs = Some stats"
    and bm: "best_model stats = fst (hd rs)"
    using overall_stats_same_key[OF rne same] by blast
  have hd_eq: "fst (hd rs) = fst (hd (models a))"
    using ne by (cases "models a") (simp_all add: rs_def)
  define out where "out = \<lparr>output_analysis_id = aid, backtest_results = rs,
      overall = calculate_overall_stats rs,
      output_parameters = \<lparr>param_period = p, param_rolling_window = w,
         param_forecast_horizon = h, param_metrics = ms\<rparr>,
      completed_at = now\<rparr>"
  have run: "run_backtest fp gauss now aid p w h ms registry = Inr out"
    by (simp add: run_backtest_def a Let_def loop out_def)
  have seed: "\<forall>gauss'. gauss' 42 = gauss 42 \<longrightarrow> run_backtest fp gauss' now aid p w h ms registry = Inr out"
  proof (intro allI impI)
    fix gauss' :: "nat \<Rightarrow> nat \<Rightarrow> real"
    assume g: "gauss' 42 = gauss 42"
    have "run_backtest fp gauss' now aid p w h ms registry = run_backtest fp gauss now aid p w h ms registry"
      by (simp add: run_backtest_def Let_def backtest_loop_seed[where gauss' = gauss' and gauss = gauss, OF g]
          split: option.splits)
    with run show "run_backtest fp gauss' now aid p w h ms registry = Inr out" by simp
  qed
  have "backtest_results out = map (\<lambda>(n, x). (n, r\<lparr>model_name := n\<rparr>)) (models a)"
    by (simp add: out_def rs_eq)
  moreover have "overall out = Some stats" by (simp add: out_def st)
  moreover have "best_model stats = fst (hd (models a))" using bm hd_eq by simp
  ultimately show ?thesis using run r seed by blast
qed

text \<open>
  With the analysis \<open>a1\<close> of the example, whose models are arima and prophet in this
  order, the best model reported is arima.
\<close>

theorem run_backtest_identical_models_witness:
  "example_registry ''a1'' = Some example_analysis \<and>
   models example_analysis \<noteq> [] \<and>
   distinct (map fst (models example_analysis)) \<and>
   (\<forall>i. - 50 < constant_gauss 0 42 i) \<and>
   (\<exists>out stats.
      run_backtest exact_results (constant_gauss 0) 0 ''a1'' ''7 Days'' ''1 Day'' ''1 Day'' [''mape'', ''sharpe'']
        example_registry = Inr out \<and>
      map fst (backtest_results out) = [''arima'', ''prophet''] \<and>
      overall out = Some stats \<and> best_model stats = ''arima'')"
proof -
  have a: "example_registry ''a1'' = Some example_analysis" by (simp add: example_registry_def)
  have ne: "models example_analysis \<noteq> []" by (simp add: example_analysis_def)
  have d: "distinct (map fst (models example_analysis))" by (simp add: example_analysis_def)
  have pos: "\<forall>i. - 50 < constant_gauss 0 42 i" by (simp add: constant_gauss_def)
  obtain out r stats where
    run: "run_backtest exact_results (constant_gauss 0) 0 ''a1'' ''7 Days'' ''1 Day'' ''1 Day'' [''mape'', ''sharpe'']
        example_registry = Inr out"
    and res: "backtest_results out = map (\<lambda>(n, x). (n, r\<lparr>model_name := n\<rparr>)) (models example_analysis)"
    and ov: "overall out = Some stats"
    and bm: "best_model stats = fst (hd (models example_analysis))"
    using run_backtest_identical_models[where gauss = "constant_gauss 0" and registry = example_registry
        and aid = "''a1''" and a = example_analysis and fp = exact_results, OF a ne d pos] by blast
  have names: "map fst (backtest_results out) = [''arima'', ''prophet'']"
    by (simp add: res example_analysis_def)
  have best: "best_model stats = ''arima''"
    by (simp add: bm example_analysis_def)
  have "\<exists>out stats.
      run_backtest exact_results (constant_gauss 0) 0 ''a1'' ''7 Days'' ''1 Day'' ''1 Day'' [''mape'', ''sharpe'']
        example_registry = Inr out \<and>
      map fst (backtest_results out) = [''arima'', ''prophet''] \<and>
      overall out = Some stats \<and> best_model stats = ''arima''"
    using run names ov best by (intro exI[of _ out] exI[of _ stats] conjI)
  with a ne d pos show ?thesis by (intro conjI)
qed

section \<open>Training a batch: a failing model does not stop the others\<close>








section \<open>Feature generation: unknown names, determinism, importance\<close>

lemma try_feature_unknown:
  "f \<notin> set known_features \<Longrightarrow> try_feature lib df f = Inr None"
  by (simp add: known_features_def try_feature_def)

lemma raw_feature_result: "raw_feature df c \<noteq> Inr None"
  by (simp add: raw_feature_def split: sum.splits)

lemma lib_feature_result: "lib_feature lib df fname cols \<noteq> Inr None"
  by (simp add: lib_feature_def split: sum.splits)

lemma mock_feature_result: "mock_feature df v \<noteq> Inr None"
  by (simp add: mock_feature_def)

lemma try_feature_known:
  assumes "f \<in> set known_features"
  shows "try_feature lib df f \<noteq> Inr None"
proof -
  from assms have
    "f = ''close'' \<or> f = ''volume'' \<or> f = ''open'' \<or> f = ''high'' \<or> f = ''low'' \<or>
     f = ''sma_20'' \<or> f = ''sma_50'' \<or> f = ''ema_12'' \<or> f = ''ema_26'' \<or> f = ''rsi'' \<or>
     f = ''macd'' \<or> f = ''macd_signal'' \<or> f = ''macd_diff'' \<or> f = ''bollinger_upper'' \<or>
     f = ''bollinger_lower'' \<or> f = ''bollinger_middle'' \<or> f = ''atr'' \<or> f = ''stoch'' \<or>
     f = ''williams_r'' \<or> f = ''price_change'' \<or> f = ''log_return'' \<or> f = ''volatility'' \<or>
     f = ''volume_sma'' \<or> f = ''volume_change'' \<or> f = ''pe_ratio'' \<or> f = ''market_cap'' \<or>
     f = ''book_value'' \<or> f = ''gdp'' \<or> f = ''cpi'' \<or> f = ''interest_rates''"
    by (simp add: known_features_def)
  then show ?thesis
    by (elim disjE)
      (simp_all add: try_feature_def raw_feature_result lib_feature_result mock_feature_result)
qed

lemma generate_feature_unknown:
  "f \<notin> set known_features \<Longrightarrow>
   generate_feature lib df f = (None, [Warning (''Unknown feature: '' @ f)])"
  by (simp add: generate_feature_def try_feature_unknown)

lemma generate_feature_known:
  "f \<in> set known_features \<Longrightarrow> filter is_warning (snd (generate_feature lib df f)) = []"
  using try_feature_known[of f lib df]
  by (auto simp: generate_feature_def split: sum.splits option.splits)

lemma generate_feature_value:
  "fst (generate_feature lib df f) = (case try_feature lib df f of Inr (Some c) \<Rightarrow> Some c | _ \<Rightarrow> None)"
  by (simp add: generate_feature_def split: sum.splits option.splits)

lemma feature_step_fst:
  "fst (feature_step lib df acc f) =
     (case fst (generate_feature lib df f) of
        None \<Rightarrow> fst acc
      | Some vs \<Rightarrow> AList.update f (feature_entry f vs) (fst acc))"
  by (simp add: feature_step_def feature_entry_def split: prod.splits option.splits)

lemma feature_step_snd:
  "snd (feature_step lib df acc f) = snd acc @ snd (generate_feature lib df f)"
  by (simp add: feature_step_def split: prod.splits option.splits)

lemma feature_loop_fst:
  "fst (foldl (feature_step lib df) acc fs) =
     foldl (\<lambda>fd f. case fst (generate_feature lib df f) of
                      None \<Rightarrow> fd
                    | Some vs \<Rightarrow> AList.update f (feature_entry f vs) fd) (fst acc) fs"
  by (induction fs arbitrary: acc) (simp_all add: feature_step_fst)

lemma feature_loop_snd:
  "snd (foldl (feature_step lib df) acc fs) =
     snd acc @ concat (map (\<lambda>f. snd (generate_feature lib df f)) fs)"
  by (induction fs arbitrary: acc) (simp_all add: feature_step_snd)

lemma feature_data_known:
  "foldl (\<lambda>fd f. case fst (generate_feature lib df f) of
                      None \<Rightarrow> fd
                    | Some vs \<Rightarrow> AList.update f (feature_entry f vs) fd) fd
         (filter (\<lambda>f. f \<in> set known_features) fs) =
   foldl (\<lambda>fd f. case fst (generate_feature lib df f) of
                      None \<Rightarrow> fd
                    | Some vs \<Rightarrow> AList.update f (feature_entry f vs) fd) fd fs"
  by (induction fs arbitrary: fd) (simp_all add: generate_feature_unknown)

lemma feature_loop_known:
  "fst (foldl (feature_step lib df) acc (filter (\<lambda>f. f \<in> set known_features) fs)) =
   fst (foldl (feature_step lib df) acc fs)"
  unfolding feature_loop_fst by (rule feature_data_known)

lemma feature_loop_warnings:
  "filter is_warning (concat (map (\<lambda>f. snd (generate_feature lib df f)) fs)) =
   map (\<lambda>f. Warning (''Unknown feature: '' @ f)) (filter (\<lambda>f. f \<notin> set known_features) fs)"
proof (induction fs)
  case Nil
  show ?case by simp
next
  case (Cons f fs)
  show ?case
  proof (cases "f \<in> set known_features")
    case True
    then show ?thesis using Cons by (simp add: generate_feature_known)
  next
    case False
    then show ?thesis using Cons by (simp add: generate_feature_unknown)
  qed
qed

lemma feature_loop_map_of:
  "map_of (foldl (\<lambda>fd f. case fst (generate_feature lib df f) of
                      None \<Rightarrow> fd
                    | Some vs \<Rightarrow> AList.update f (feature_entry f vs) fd) fd fs) k =
     (if k \<in> set fs
      then (case fst (generate_feature lib df k) of
              None \<Rightarrow> map_of fd k
            | Some vs \<Rightarrow> Some (feature_entry k vs))
      else map_of fd k)"
  by (induction fs arbitrary: fd) (auto simp: update_conv' split: option.splits)

lemma feature_loop_distinct:
  "distinct (map fst fd) \<Longrightarrow>
   distinct (map fst (foldl (\<lambda>fd f. case fst (generate_feature lib df f) of
                      None \<Rightarrow> fd
                    | Some vs \<Rightarrow> AList.update f (feature_entry f vs) fd) fd fs))"
  by (induction fs arbitrary: fd) (auto simp: distinct_update split: option.splits)

lemma generate_features_custom:
  assumes "rows \<noteq> []"
  shows "generate_features lib now u tick ''custom'' selected (Some rows) =
     (let fd = fst (foldl (feature_step lib (sort_key date rows)) ([], []) selected)
      in (Inr \<lparr>features = fd,
               feature_importance = calculate_feature_importance u fd,
               correlation_matrix = calculate_correlation_matrix fd,
               selected_features = selected,
               ticker = tick,
               generated_at = now\<rparr>,
          concat (map (\<lambda>f. snd (generate_feature lib (sort_key date rows) f)) selected)))"
  using assms
  by (simp add: generate_features_def Let_def case_prod_beta feature_loop_snd)

text \<open>
  C8. For a non-empty series and any requested list of feature names the call returns
  a table; it is the table of the same request without the unknown names, except that
  the field \<open>selected_features\<close> repeats the request as it was; every requested
  feature whose computation gives values is in the table with these values; and the
  warnings logged are one per unknown name, in the order of the request.
\<close>

theorem unknown_features_skipped:
  assumes "rows \<noteq> []"
  shows "\<exists>t. fst (generate_features lib now u tick ''custom'' selected (Some rows)) = Inr t \<and>
     fst (generate_features lib now u tick ''custom''
            (filter (\<lambda>f. f \<in> set known_features) selected) (Some rows))
       = Inr (t\<lparr>selected_features := filter (\<lambda>f. f \<in> set known_features) selected\<rparr>) \<and>
     selected_features t = selected \<and>
     (\<forall>f \<in> set selected. \<forall>c. try_feature lib (sort_key date rows) f = Inr (Some c) \<longrightarrow>
        map_of (features t) f = Some (feature_entry f c)) \<and>
     filter is_warning (snd (generate_features lib now u tick ''custom'' selected (Some rows)))
       = map (\<lambda>f. Warning (''Unknown feature: '' @ f)) (filter (\<lambda>f. f \<notin> set known_features) selected)"
proof -
  define df where "df = sort_key date rows"
  define fd where "fd = fst (foldl (feature_step lib df) ([], []) selected)"
  define t where "t = \<lparr>features = fd,
               feature_importance = calculate_feature_importance u fd,
               correlation_matrix = calculate_correlation_matrix fd,
               selected_features = selected,
               ticker = tick,
               generated_at = now\<rparr>"
  have run: "fst (generate_features lib now u tick ''custom'' selected (Some rows)) = Inr t"
    by (simp add: generate_features_custom[OF assms] Let_def t_def fd_def df_def)
  have same: "fst (foldl (feature_step lib df) ([], []) (filter (\<lambda>f. f \<in> set known_features) selected)) = fd"
    unfolding fd_def by (rule feature_loop_known)
  have known: "fst (generate_features lib now u tick ''custom''
            (filter (\<lambda>f. f \<in> set known_features) selected) (Some rows))
       = Inr (t\<lparr>selected_features := filter (\<lambda>f. f \<in> set known_features) selected\<rparr>)"
    by (simp add: generate_features_custom[OF assms] Let_def t_def df_def[symmetric] same)
  have produced: "\<forall>f \<in> set selected. \<forall>c. try_feature lib (sort_key date rows) f = Inr (Some c) \<longrightarrow>
        map_of (features t) f = Some (feature_entry f c)"
  proof (intro ballI allI impI)
    fix f c assume f: "f \<in> set selected" and c: "try_feature lib (sort_key date rows) f = Inr (Some c)"
    have "fst (generate_feature lib df f) = Some c"
      by (simp add: generate_feature_value df_def c)
    then show "map_of (features t) f = Some (feature_entry f c)"
      using f by (simp add: t_def fd_def feature_loop_fst feature_loop_map_of)
  qed
  have warn: "filter is_warning (snd (generate_features lib now u tick ''custom'' selected (Some rows)))
       = map (\<lambda>f. Warning (''Unknown feature: '' @ f)) (filter (\<lambda>f. f \<notin> set known_features) selected)"
    by (simp add: generate_features_custom[OF assms] Let_def feature_loop_warnings)
  have sel: "selected_features t = selected" by (simp add: t_def)
  show ?thesis using run known sel produced warn by (intro exI[of _ t] conjI)
qed
lemma example_rows_sorted:
  "sort_key date example_rows =
     [\<lparr>date = 1, cells = [(''close'', Some 10), (''volume'', Some 100)]\<rparr>,
      \<lparr>date = 2, cells = [(''close'', Some 12), (''volume'', Some 300)]\<rparr>,
      \<lparr>date = 3, cells = [(''close'', Some 11), (''volume'', Some 200)]\<rparr>]"
  by (simp add: example_rows_def)

lemma example_close:
  "try_feature lib (sort_key date example_rows) ''close'' = Inr (Some [Some 10, Some 12, Some 11])"
  by (simp add: example_rows_sorted try_feature_def raw_feature_def df_column_def)

lemma example_volume:
  "try_feature lib (sort_key date example_rows) ''volume'' = Inr (Some [Some 100, Some 300, Some 200])"
  by (simp add: example_rows_sorted try_feature_def raw_feature_def df_column_def)

lemma example_pe_ratio:
  "try_feature lib (sort_key date example_rows) ''pe_ratio'' = Inr (Some [Some 20.5, Some 20.5, Some 20.5])"
  by (simp add: example_rows_sorted try_feature_def mock_feature_def numeral_3_eq_3)

text \<open>
  A request for close, an unknown name and pe\_ratio on the example rows: the table has
  the closing prices in date order, and the one warning is about the unknown name.
\<close>

theorem unknown_features_skipped_witness:
  "example_rows \<noteq> [] \<and>
   (\<exists>t. fst (generate_features failing_lib 0 (constant_stream 0) ''ACME'' ''custom''
             [''close'', ''bogus'', ''pe_ratio''] (Some example_rows)) = Inr t \<and>
        map_of (features t) ''close'' = Some (feature_entry ''close'' [Some 10, Some 12, Some 11]) \<and>
        map_of (features t) ''pe_ratio'' =
          Some (feature_entry ''pe_ratio'' [Some 20.5, Some 20.5, Some 20.5])) \<and>
   filter is_warning (snd (generate_features failing_lib 0 (constant_stream 0) ''ACME'' ''custom''
             [''close'', ''bogus'', ''pe_ratio''] (Some example_rows)))
     = [Warning ''Unknown feature: bogus'']"
proof -
  have ne: "example_rows \<noteq> []" by (simp add: example_rows_def)
  have unknown: "filter (\<lambda>f. f \<notin> set known_features) [''close'', ''bogus'', ''pe_ratio''] = [''bogus'']"
    by (simp add: known_features_def)
  from unknown_features_skipped[OF ne, of failing_lib 0 "constant_stream 0" "''ACME''"
      "[''close'', ''bogus'', ''pe_ratio'']"]
  obtain t where run: "fst (generate_features failing_lib 0 (constant_stream 0) ''ACME'' ''custom''
             [''close'', ''bogus'', ''pe_ratio''] (Some example_rows)) = Inr t"
    and produced: "\<forall>f \<in> set [''close'', ''bogus'', ''pe_ratio''].
        \<forall>c. try_feature failing_lib (sort_key date example_rows) f = Inr (Some c) \<longrightarrow>
        map_of (features t) f = Some (feature_entry f c)"
    and warn: "filter is_warning (snd (generate_features failing_lib 0 (constant_stream 0) ''ACME'' ''custom''
             [''close'', ''bogus'', ''pe_ratio''] (Some example_rows)))
       = map (\<lambda>f. Warning (''Unknown feature: '' @ f))
           (filter (\<lambda>f. f \<notin> set known_features) [''close'', ''bogus'', ''pe_ratio''])"
    by (elim exE conjE)
  have c: "map_of (features t) ''close'' = Some (feature_entry ''close'' [Some 10, Some 12, Some 11])"
    using produced example_close[of failing_lib] by simp
  have p: "map_of (features t) ''pe_ratio'' =
          Some (feature_entry ''pe_ratio'' [Some 20.5, Some 20.5, Some 20.5])"
    using produced example_pe_ratio[of failing_lib] by simp
  have w: "filter is_warning (snd (generate_features failing_lib 0 (constant_stream 0) ''ACME'' ''custom''
             [''close'', ''bogus'', ''pe_ratio''] (Some example_rows)))
     = [Warning ''Unknown feature: bogus'']"
    unfolding warn unknown by simp
  have "\<exists>t. fst (generate_features failing_lib 0 (constant_stream 0) ''ACME'' ''custom''
             [''close'', ''bogus'', ''pe_ratio''] (Some example_rows)) = Inr t \<and>
        map_of (features t) ''close'' = Some (feature_entry ''close'' [Some 10, Some 12, Some 11]) \<and>
        map_of (features t) ''pe_ratio'' =
          Some (feature_entry ''pe_ratio'' [Some 20.5, Some 20.5, Some 20.5])"
    using run c p by (intro exI[of _ t] conjI)
  with ne w show ?thesis by (intro conjI)
qed

lemma generate_features_table:
  assumes "fst (generate_features lib now u tick preset selected stock_data) = Inr t"
  shows "\<exists>df fs.
     features t = fst (foldl (feature_step lib df) ([], []) fs) \<and>
     feature_importance t = calculate_feature_importance u (features t) \<and>
     correlation_matrix t = calculate_correlation_matrix (features t) \<and>
     selected_features t = fs \<and> ticker t = tick \<and> generated_at t = now"
proof (cases stock_data)
  case None
  with assms show ?thesis by (simp add: generate_features_def)
next
  case (Some rows)
  show ?thesis
  proof (cases "rows = []")
    case True
    with assms Some show ?thesis by (simp add: generate_features_def)
  next
    case False
    define fs where "fs = (if preset = ''custom'' then selected
                    else (case map_of feature_presets preset of None \<Rightarrow> [] | Some fs \<Rightarrow> fs))"
    define fd where "fd = fst (foldl (feature_step lib (sort_key date rows)) ([], []) fs)"
    have "fst (generate_features lib now u tick preset selected stock_data) =
        Inr \<lparr>features = fd,
               feature_importance = calculate_feature_importance u fd,
               correlation_matrix = calculate_correlation_matrix fd,
               selected_features = fs, ticker = tick, generated_at = now\<rparr>"
      using False by (simp add: generate_features_def Some Let_def case_prod_beta fs_def fd_def)
    with assms have t: "t = \<lparr>features = fd,
               feature_importance = calculate_feature_importance u fd,
               correlation_matrix = calculate_correlation_matrix fd,
               selected_features = fs, ticker = tick, generated_at = now\<rparr>"
      by simp
    show ?thesis
      by (intro exI[of _ "sort_key date rows"] exI[of _ fs]) (simp add: t fd_def)
  qed
qed

lemma features_distinct:
  assumes "fst (generate_features lib now u tick preset selected stock_data) = Inr t"
  shows "distinct (map fst (features t))"
proof -
  from generate_features_table[OF assms] obtain df fs where
    "features t = fst (foldl (feature_step lib df) ([], []) fs)" by (elim exE conjE)
  then show ?thesis
    by (simp add: feature_loop_fst feature_loop_distinct)
qed

lemma importance_features:
  "map feature (map (importance_entry_of u) (enumerate 0 names)) = names"
proof -
  have "map feature (map (importance_entry_of u) (enumerate n names)) = names" for n
    by (induction names arbitrary: n) (simp_all add: importance_entry_of_def Let_def)
  then show ?thesis .
qed

lemma importance_entry_score:
  assumes "0 \<le> u k" and "u k < 1"
  shows "case map_of importance_scores (feature (importance_entry_of u (k, f))) of
           Some s \<Rightarrow> importance (importance_entry_of u (k, f)) = s
         | None \<Rightarrow> 0.1 \<le> importance (importance_entry_of u (k, f)) \<and>
                    importance (importance_entry_of u (k, f)) < 0.9"
  using assms
  by (simp add: importance_entry_of_def Let_def np_random_uniform_def split: option.splits)

lemma calculate_feature_importance_props:
  assumes d: "distinct (map fst fd)" and u: "\<forall>i. 0 \<le> u i \<and> u i < 1"
  shows "length (calculate_feature_importance u fd) = length fd \<and>
     distinct (map feature (calculate_feature_importance u fd)) \<and>
     set (map feature (calculate_feature_importance u fd)) = fst ` set fd \<and>
     sorted_wrt (\<lambda>a b. importance b \<le> importance a) (calculate_feature_importance u fd) \<and>
     (\<forall>e \<in> set (calculate_feature_importance u fd).
        case map_of importance_scores (feature e) of
          Some s \<Rightarrow> importance e = s
        | None \<Rightarrow> 0.1 \<le> importance e \<and> importance e < 0.9)"
proof -
  define entries where "entries = map (importance_entry_of u) (enumerate 0 (map fst fd))"
  have imp: "calculate_feature_importance u fd = sort_key (\<lambda>e. - importance e) entries"
    by (simp add: calculate_feature_importance_def entries_def)
  have names: "map feature entries = map fst fd"
    unfolding entries_def by (rule importance_features)
  have len: "length (calculate_feature_importance u fd) = length fd"
    by (simp add: imp entries_def)
  have de: "distinct (map feature entries)" using d names by simp
  then have "distinct entries" and inj: "inj_on feature (set entries)"
    by (simp_all add: distinct_map)
  then have dist: "distinct (map feature (calculate_feature_importance u fd))"
    by (simp add: imp distinct_map)
  have st: "set (map feature (calculate_feature_importance u fd)) = fst ` set fd"
  proof -
    have "set (map feature (calculate_feature_importance u fd)) = set (map feature entries)"
      by (simp add: imp)
    also have "\<dots> = fst ` set fd" by (simp add: names)
    finally show ?thesis .
  qed
  have "sorted (map (\<lambda>e. - importance e) (sort_key (\<lambda>e. - importance e) entries))"
    by (rule sorted_sort_key)
  then have srt: "sorted_wrt (\<lambda>a b. importance b \<le> importance a) (calculate_feature_importance u fd)"
    by (simp add: imp sorted_map)
  have scores: "\<forall>e \<in> set (calculate_feature_importance u fd).
        case map_of importance_scores (feature e) of
          Some s \<Rightarrow> importance e = s
        | None \<Rightarrow> 0.1 \<le> importance e \<and> importance e < 0.9"
  proof
    fix e assume "e \<in> set (calculate_feature_importance u fd)"
    then have "e \<in> set entries" by (simp add: imp)
    then obtain k f where e: "e = importance_entry_of u (k, f)"
      by (auto simp: entries_def)
    from u have "0 \<le> u k" "u k < 1" by simp_all
    then show "case map_of importance_scores (feature e) of
          Some s \<Rightarrow> importance e = s
        | None \<Rightarrow> 0.1 \<le> importance e \<and> importance e < 0.9"
      unfolding e by (rule importance_entry_score)
  qed
  show ?thesis using len dist st srt scores by (intro conjI)
qed

text \<open>
  C10. When the generator's samples lie in [0, 1), the importance list of a table
  returned by \<^verbatim>\<open>generate_features\<close> has exactly one entry per generated feature, is
  sorted in non-increasing order of score, and each score is the one of the static
  table when the feature is listed there and a value of [0.1, 0.9) otherwise.
\<close>

theorem feature_importance_sorted:
  assumes run: "fst (generate_features lib now u tick preset selected stock_data) = Inr t"
      and u: "\<forall>i. 0 \<le> u i \<and> u i < 1"
  shows "length (feature_importance t) = length (features t) \<and>
     distinct (map feature (feature_importance t)) \<and>
     set (map feature (feature_importance t)) = fst ` set (features t) \<and>
     sorted_wrt (\<lambda>a b. importance b \<le> importance a) (feature_importance t) \<and>
     (\<forall>e \<in> set (feature_importance t).
        case map_of importance_scores (feature e) of
          Some s \<Rightarrow> importance e = s
        | None \<Rightarrow> 0.1 \<le> importance e \<and> importance e < 0.9)"
proof -
  from generate_features_table[OF run]
  have fi: "feature_importance t = calculate_feature_importance u (features t)"
    by (elim exE conjE)
  show ?thesis
    unfolding fi
    by (rule calculate_feature_importance_props[OF features_distinct[OF run] u])
qed

text \<open>
  On the example rows with the features volume, pe\_ratio and close and every sample
  equal to 1/2: pe\_ratio is not in the static table and scores 0.1 + 0.8 / 2 = 0.5, so
  the order is close (0.85), pe\_ratio (0.5), volume (0.45).
\<close>

theorem feature_importance_sorted_witness:
  "(\<forall>i. 0 \<le> constant_stream (1 / 2) i \<and> constant_stream (1 / 2) i < 1) \<and>
   (\<exists>t. fst (generate_features failing_lib 0 (constant_stream (1 / 2)) ''ACME'' ''custom''
             [''volume'', ''pe_ratio'', ''close''] (Some example_rows)) = Inr t \<and>
        map feature (feature_importance t) = [''close'', ''pe_ratio'', ''volume''] \<and>
        map importance (feature_importance t) = [0.85, 0.5, 0.45] \<and>
        sorted_wrt (\<lambda>a b. importance b \<le> importance a) (feature_importance t))"
proof -
  have u: "\<forall>i. 0 \<le> constant_stream (1 / 2) i \<and> constant_stream (1 / 2) i < 1"
    by (simp add: constant_stream_def)
  have ne: "example_rows \<noteq> []" by (simp add: example_rows_def)
  define t where "t = (case fst (generate_features failing_lib 0 (constant_stream (1 / 2)) ''ACME'' ''custom''
             [''volume'', ''pe_ratio'', ''close''] (Some example_rows)) of Inr x \<Rightarrow> x)"
  have gf: "fst (generate_feature failing_lib (sort_key date example_rows) ''volume'') = Some [Some 100, Some 300, Some 200]"
       "fst (generate_feature failing_lib (sort_key date example_rows) ''pe_ratio'') = Some [Some 20.5, Some 20.5, Some 20.5]"
       "fst (generate_feature failing_lib (sort_key date example_rows) ''close'') = Some [Some 10, Some 12, Some 11]"
    by (simp_all add: generate_feature_value example_volume example_pe_ratio example_close)
  have run: "fst (generate_features failing_lib 0 (constant_stream (1 / 2)) ''ACME'' ''custom''
             [''volume'', ''pe_ratio'', ''close''] (Some example_rows)) = Inr t"
    by (simp add: t_def generate_features_custom[OF ne] Let_def)
  have imp: "feature_importance t =
      [\<lparr>feature = ''close'', importance = 0.85\<rparr>, \<lparr>feature = ''pe_ratio'', importance = 0.5\<rparr>,
       \<lparr>feature = ''volume'', importance = 0.45\<rparr>]"
    by (simp add: t_def generate_features_custom[OF ne] Let_def feature_step_fst gf
        calculate_feature_importance_def enumerate_eq_zip upt_rec importance_entry_of_def
        importance_scores_def np_random_uniform_def constant_stream_def)
  from feature_importance_sorted[OF run u]
  have srt: "sorted_wrt (\<lambda>a b. importance b \<le> importance a) (feature_importance t)"
    by (elim conjE)
  have "\<exists>t. fst (generate_features failing_lib 0 (constant_stream (1 / 2)) ''ACME'' ''custom''
             [''volume'', ''pe_ratio'', ''close''] (Some example_rows)) = Inr t \<and>
        map feature (feature_importance t) = [''close'', ''pe_ratio'', ''volume''] \<and>
        map importance (feature_importance t) = [0.85, 0.5, 0.45] \<and>
        sorted_wrt (\<lambda>a b. importance b \<le> importance a) (feature_importance t)"
    using run srt by (intro exI[of _ t] conjI) (simp_all add: imp)
  with u show ?thesis by (intro conjI)
qed
lemma generate_features_cases:
  "(\<exists>e lg. \<forall>now u. generate_features lib now u tick preset selected stock_data = (Inl e, lg)) \<or>
   (\<exists>fd fs lg. \<forall>now u. generate_features lib now u tick preset selected stock_data =
      (Inr \<lparr>features = fd,
             feature_importance = calculate_feature_importance u fd,
             correlation_matrix = calculate_correlation_matrix fd,
             selected_features = fs, ticker = tick, generated_at = now\<rparr>, lg))"
proof (cases stock_data)
  case None
  then show ?thesis by (simp add: generate_features_def)
next
  case (Some rows)
  show ?thesis
  proof (cases "rows = []")
    case True
    with Some show ?thesis by (simp add: generate_features_def)
  next
    case False
    define fs where "fs = (if preset = ''custom'' then selected
                    else (case map_of feature_presets preset of None \<Rightarrow> [] | Some fs \<Rightarrow> fs))"
    define r where "r = foldl (feature_step lib (sort_key date rows)) ([], []) fs"
    have "\<forall>now u. generate_features lib now u tick preset selected stock_data =
      (Inr \<lparr>features = fst r,
             feature_importance = calculate_feature_importance u (fst r),
             correlation_matrix = calculate_correlation_matrix (fst r),
             selected_features = fs, ticker = tick, generated_at = now\<rparr>, snd r)"
      using False by (simp add: generate_features_def Some Let_def case_prod_beta fs_def r_def)
    then show ?thesis by blast
  qed
qed

lemma importance_entry_static:
  "f \<in> fst ` set importance_scores \<Longrightarrow> importance_entry_of u1 (k, f) = importance_entry_of u2 (k, f)"
proof -
  assume "f \<in> fst ` set importance_scores"
  then have "map_of importance_scores f \<noteq> None" by (simp add: map_of_eq_None_iff)
  then show ?thesis by (auto simp: importance_entry_of_def Let_def)
qed

lemma static_importance_independent:
  "static_importance (calculate_feature_importance u1 fd) =
   static_importance (calculate_feature_importance u2 fd)"
proof -
  define en where "en = enumerate 0 (map fst fd)"
  have feat: "feature (importance_entry_of u kf) = snd kf" for u kf
    by (simp add: importance_entry_of_def Let_def)
  have F: "filter (\<lambda>e. feature e \<in> fst ` set importance_scores) (map (importance_entry_of u) en)
        = map (importance_entry_of u) (filter (\<lambda>kf. snd kf \<in> fst ` set importance_scores) en)" for u
    by (simp add: filter_map comp_def feat)
  have B: "map (importance_entry_of u1) (filter (\<lambda>kf. snd kf \<in> fst ` set importance_scores) en)
        = map (importance_entry_of u2) (filter (\<lambda>kf. snd kf \<in> fst ` set importance_scores) en)"
  proof (rule map_cong[OF refl])
    fix kf assume "kf \<in> set (filter (\<lambda>kf. snd kf \<in> fst ` set importance_scores) en)"
    then have "snd kf \<in> fst ` set importance_scores" by simp
    then show "importance_entry_of u1 kf = importance_entry_of u2 kf"
      using importance_entry_static[of "snd kf" u1 "fst kf" u2] by simp
  qed
  have A: "static_importance (calculate_feature_importance u fd) =
      sort_key (\<lambda>e. - importance e)
        (map (importance_entry_of u) (filter (\<lambda>kf. snd kf \<in> fst ` set importance_scores) en))" for u
    unfolding static_importance_def calculate_feature_importance_def filter_sort en_def[symmetric] F ..
  show ?thesis unfolding A B ..
qed

text \<open>
  C7, as the code has it. Two calls with the same arguments, at any two times and with
  the generator in any two states, either raise the same exception or return tables
  with the same features, correlation matrix, selected features and ticker; they log
  the same entries; the importance entries of the features of the static table are the
  same, in the same order; and when the generator delivers the same samples the two
  tables differ in the time stamp \<open>generated_at\<close> only.
\<close>

theorem generate_features_repeatable:
  "map_sum id table_data (fst (generate_features lib now1 u1 tick preset selected stock_data)) =
   map_sum id table_data (fst (generate_features lib now2 u2 tick preset selected stock_data)) \<and>
   snd (generate_features lib now1 u1 tick preset selected stock_data) =
   snd (generate_features lib now2 u2 tick preset selected stock_data) \<and>
   map_sum id (\<lambda>t. static_importance (feature_importance t))
     (fst (generate_features lib now1 u1 tick preset selected stock_data)) =
   map_sum id (\<lambda>t. static_importance (feature_importance t))
     (fst (generate_features lib now2 u2 tick preset selected stock_data)) \<and>
   map_sum id (\<lambda>t. t\<lparr>generated_at := 0\<rparr>)
     (fst (generate_features lib now1 u1 tick preset selected stock_data)) =
   map_sum id (\<lambda>t. t\<lparr>generated_at := 0\<rparr>)
     (fst (generate_features lib now2 u1 tick preset selected stock_data))"
proof -
  from generate_features_cases[of lib tick preset selected stock_data]
  show ?thesis
  proof
    assume "\<exists>e lg. \<forall>now u. generate_features lib now u tick preset selected stock_data = (Inl e, lg)"
    then obtain e lg where "\<forall>now u. generate_features lib now u tick preset selected stock_data = (Inl e, lg)"
      by (elim exE)
    then show ?thesis by simp
  next
    assume "\<exists>fd fs lg. \<forall>now u. generate_features lib now u tick preset selected stock_data =
      (Inr \<lparr>features = fd,
             feature_importance = calculate_feature_importance u fd,
             correlation_matrix = calculate_correlation_matrix fd,
             selected_features = fs, ticker = tick, generated_at = now\<rparr>, lg)"
    then obtain fd fs lg where "\<forall>now u. generate_features lib now u tick preset selected stock_data =
      (Inr \<lparr>features = fd,
             feature_importance = calculate_feature_importance u fd,
             correlation_matrix = calculate_correlation_matrix fd,
             selected_features = fs, ticker = tick, generated_at = now\<rparr>, lg)"
      by (elim exE)
    then show ?thesis
      by (simp add: table_data_def static_importance_independent[of u1 fd u2])
  qed
qed

text \<open>
  The same request for the closing prices at two different times: the one feature is
  in the static table, no fallback score is drawn, and yet the two results differ, in
  their time stamps.
\<close>

theorem generate_features_timestamp_counterexample:
  "fst (generate_features failing_lib 0 (constant_stream 0) ''ACME'' ''custom'' [''close'']
          (Some example_rows)) \<noteq>
   fst (generate_features failing_lib 1 (constant_stream 0) ''ACME'' ''custom'' [''close'']
          (Some example_rows))"
proof -
  have ne: "example_rows \<noteq> []" by (simp add: example_rows_def)
  show ?thesis by (simp add: generate_features_custom[OF ne] Let_def)
qed

text \<open>The two calls of the example agree on everything but the time stamp.\<close>

theorem generate_features_repeatable_witness:
  "map_sum id (\<lambda>t. t\<lparr>generated_at := 0\<rparr>)
     (fst (generate_features failing_lib 0 (constant_stream 0) ''ACME'' ''custom'' [''close'']
          (Some example_rows))) =
   map_sum id (\<lambda>t. t\<lparr>generated_at := 0\<rparr>)
     (fst (generate_features failing_lib 1 (constant_stream 0) ''ACME'' ''custom'' [''close'']
          (Some example_rows)))"
  using generate_features_repeatable[of failing_lib 0 "constant_stream 0" "''ACME''" "''custom''"
      "[''close'']" "Some example_rows" 1 "constant_stream 0"]
  by (elim conjE)

section \<open>Correlation matrix\<close>

lemma cauchy_schwarz_step:
  fixes x y A B C :: real
  assumes "B\<^sup>2 \<le> A * C" and "0 \<le> A" and "0 \<le> C"
  shows "(x * y + B)\<^sup>2 \<le> (x\<^sup>2 + A) * (y\<^sup>2 + C)"
proof -
  have "(2 * B * x * y)\<^sup>2 = 4 * B\<^sup>2 * (x\<^sup>2 * y\<^sup>2)"
    by (simp add: power2_eq_square)
  also have "\<dots> \<le> 4 * (A * C) * (x\<^sup>2 * y\<^sup>2)"
    using assms(1) by (intro mult_right_mono mult_left_mono) simp_all
  also have "\<dots> \<le> (A * y\<^sup>2 + C * x\<^sup>2)\<^sup>2"
  proof -
    have "0 \<le> (A * y\<^sup>2 - C * x\<^sup>2)\<^sup>2" by simp
    then show ?thesis by (simp add: power2_eq_square algebra_simps)
  qed
  finally have "(2 * B * x * y)\<^sup>2 \<le> (A * y\<^sup>2 + C * x\<^sup>2)\<^sup>2" .
  moreover have "0 \<le> A * y\<^sup>2 + C * x\<^sup>2" using assms(2,3) by simp
  ultimately have "2 * B * x * y \<le> A * y\<^sup>2 + C * x\<^sup>2" by (rule power2_le_imp_le)
  moreover have "(x * y + B)\<^sup>2 = x\<^sup>2 * y\<^sup>2 + 2 * B * x * y + B\<^sup>2"
    by (simp add: power2_eq_square algebra_simps)
  moreover have "(x\<^sup>2 + A) * (y\<^sup>2 + C) = x\<^sup>2 * y\<^sup>2 + (A * y\<^sup>2 + C * x\<^sup>2) + A * C"
    by (simp add: algebra_simps)
  ultimately show ?thesis using assms(1) by linarith
qed

lemma cauchy_schwarz_list:
  fixes f g :: "'a \<Rightarrow> real"
  shows "(\<Sum>p\<leftarrow>ps. f p * g p)\<^sup>2 \<le> (\<Sum>p\<leftarrow>ps. (f p)\<^sup>2) * (\<Sum>p\<leftarrow>ps. (g p)\<^sup>2)"
proof (induction ps)
  case Nil
  show ?case by simp
next
  case (Cons p ps)
  have "0 \<le> (\<Sum>p\<leftarrow>ps. (f p)\<^sup>2)" by (rule sum_list_nonneg) auto
  moreover have "0 \<le> (\<Sum>p\<leftarrow>ps. (g p)\<^sup>2)" by (rule sum_list_nonneg) auto
  ultimately show ?case
    using cauchy_schwarz_step[OF Cons.IH, of "f p" "g p"] by simp
qed

lemma pearson_of_pairs_bounds:
  assumes "pearson_of_pairs ps = Some r"
  shows "- 1 \<le> r \<and> r \<le> 1"
proof -
  define mx where "mx = sum_list (map fst ps) / real (length ps)"
  define my where "my = sum_list (map snd ps) / real (length ps)"
  define ssx where "ssx = (\<Sum>p\<leftarrow>ps. (fst p - mx)\<^sup>2)"
  define ssy where "ssy = (\<Sum>p\<leftarrow>ps. (snd p - my)\<^sup>2)"
  define cov where "cov = (\<Sum>p\<leftarrow>ps. (fst p - mx) * (snd p - my))"
  have unf: "pearson_of_pairs ps =
      (if ps = [] \<or> sqrt (ssx * ssy) = 0 then None else Some (cov / sqrt (ssx * ssy)))"
    by (simp add: pearson_of_pairs_def Let_def case_prod_unfold mx_def my_def ssx_def ssy_def cov_def)
  from assms unf have nz: "sqrt (ssx * ssy) \<noteq> 0" and r: "r = cov / sqrt (ssx * ssy)"
    by (auto split: if_splits)
  have nonneg: "0 \<le> ssx * ssy"
    unfolding ssx_def ssy_def by (intro mult_nonneg_nonneg sum_list_nonneg) auto
  then have pos: "0 < sqrt (ssx * ssy)" using nz by (simp add: less_le)
  have "cov\<^sup>2 \<le> ssx * ssy"
    unfolding cov_def ssx_def ssy_def by (rule cauchy_schwarz_list)
  then have "sqrt (cov\<^sup>2) \<le> sqrt (ssx * ssy)" by (rule real_sqrt_le_mono)
  then have bound: "\<bar>cov\<bar> \<le> sqrt (ssx * ssy)" by simp
  have lower: "- sqrt (ssx * ssy) \<le> cov" using bound by linarith
  have upper: "cov \<le> sqrt (ssx * ssy)" using bound by linarith
  have "- 1 \<le> cov / sqrt (ssx * ssy)" using lower pos by (simp add: le_divide_eq)
  moreover have "cov / sqrt (ssx * ssy) \<le> 1" using upper pos by (simp add: divide_le_eq)
  ultimately show ?thesis unfolding r by (rule conjI)
qed

lemma complete_pairs_Nil [simp]: "complete_pairs [] ys = []" "complete_pairs xs [] = []"
  by (simp_all add: complete_pairs_def)

lemma complete_pairs_Cons [simp]:
  "complete_pairs (x # xs) (y # ys) =
     (case (x, y) of (Some a, Some b) \<Rightarrow> [(a, b)] | _ \<Rightarrow> []) @ complete_pairs xs ys"
  by (simp add: complete_pairs_def)

lemma complete_pairs_swap:
  "complete_pairs ys xs = map prod.swap (complete_pairs xs ys)"
proof (induction xs arbitrary: ys)
  case Nil
  show ?case by simp
next
  case (Cons x xs)
  show ?case
  proof (cases ys)
    case Nil
    then show ?thesis by simp
  next
    case (Cons y ys')
    then show ?thesis using Cons.IH[of ys'] by (simp split: option.splits)
  qed
qed

lemma pearson_of_pairs_swap: "pearson_of_pairs (map prod.swap ps) = pearson_of_pairs ps"
  by (simp add: pearson_of_pairs_def Let_def comp_def case_prod_unfold mult.commute)

lemma pearson_symmetric: "pearson xs ys = pearson ys xs"
  by (simp add: pearson_def complete_pairs_swap[of ys xs] pearson_of_pairs_swap)

lemma pearson_bounds: "pearson xs ys = Some r \<Longrightarrow> - 1 \<le> r \<and> r \<le> 1"
  unfolding pearson_def by (rule pearson_of_pairs_bounds)

lemma fillna0_bounds: "- 1 \<le> fillna0 (pearson xs ys) \<and> fillna0 (pearson xs ys) \<le> 1"
proof (cases "pearson xs ys")
  case None
  then show ?thesis by (simp add: fillna0_def)
next
  case (Some r)
  with pearson_bounds[OF Some] show ?thesis by (simp add: fillna0_def)
qed

lemma complete_pairs_same:
  "complete_pairs c c = map (\<lambda>a. (a, a)) (column_numbers c)"
proof (induction c)
  case Nil
  show ?case by (simp add: column_numbers_def)
next
  case (Cons x c)
  have "column_numbers (x # c) = (case x of None \<Rightarrow> [] | Some a \<Rightarrow> [a]) @ column_numbers c"
    by (simp add: column_numbers_def)
  then show ?case using Cons.IH by (cases x) simp_all
qed

lemma sum_list_constant:
  fixes a :: real
  assumes "\<forall>x \<in> set ns. x = a"
  shows "sum_list ns = real (length ns) * a"
  using assms by (induction ns) (simp_all add: distrib_right)

lemma squares_zero_iff:
  fixes m :: real
  shows "(\<Sum>a\<leftarrow>ns. (a - m)\<^sup>2) = 0 \<longleftrightarrow> (\<forall>a \<in> set ns. a = m)"
proof -
  have "(\<Sum>a\<leftarrow>ns. (a - m)\<^sup>2) = 0 \<longleftrightarrow> (\<forall>x \<in> set (map (\<lambda>a. (a - m)\<^sup>2) ns). x = 0)"
    by (rule sum_list_nonneg_eq_0_iff) auto
  then show ?thesis by simp
qed

lemma varies_mean:
  fixes ns :: "real list"
  assumes "ns \<noteq> []"
  shows "(\<exists>a \<in> set ns. \<exists>b \<in> set ns. a \<noteq> b) \<longleftrightarrow>
         \<not> (\<forall>a \<in> set ns. a = sum_list ns / real (length ns))"
proof
  assume "\<exists>a \<in> set ns. \<exists>b \<in> set ns. a \<noteq> b"
  then obtain a b where a: "a \<in> set ns" and b: "b \<in> set ns" and ab: "a \<noteq> b" by (elim bexE)
  show "\<not> (\<forall>a \<in> set ns. a = sum_list ns / real (length ns))"
  proof
    assume all: "\<forall>a \<in> set ns. a = sum_list ns / real (length ns)"
    have "a = sum_list ns / real (length ns)" using all a by (rule bspec)
    moreover have "b = sum_list ns / real (length ns)" using all b by (rule bspec)
    ultimately show False using ab by (simp only:)
  qed
next
  assume nm: "\<not> (\<forall>a \<in> set ns. a = sum_list ns / real (length ns))"
  show "\<exists>a \<in> set ns. \<exists>b \<in> set ns. a \<noteq> b"
  proof (rule ccontr)
    assume nv: "\<not> (\<exists>a \<in> set ns. \<exists>b \<in> set ns. a \<noteq> b)"
    have h: "hd ns \<in> set ns" using assms by (rule hd_in_set)
    have same: "\<forall>x \<in> set ns. x = hd ns"
    proof
      fix x assume "x \<in> set ns"
      with nv h show "x = hd ns" by blast
    qed
    have len: "real (length ns) \<noteq> 0" using assms by simp
    have "sum_list ns = real (length ns) * hd ns" using same by (rule sum_list_constant)
    then have "sum_list ns / real (length ns) = hd ns" using len by simp
    then have "\<forall>a \<in> set ns. a = sum_list ns / real (length ns)" using same by (simp only:)
    with nm show False by (rule notE)
  qed
qed

lemma pearson_of_pairs_same:
  fixes ns :: "real list"
  defines "m \<equiv> sum_list ns / real (length ns)"
  defines "S \<equiv> (\<Sum>a\<leftarrow>ns. (a - m)\<^sup>2)"
  shows "pearson_of_pairs (map (\<lambda>a. (a, a)) ns) = (if ns = [] \<or> S = 0 then None else Some 1)"
proof -
  have nonneg: "0 \<le> S" unfolding S_def by (rule sum_list_nonneg) auto
  have fsts: "map fst (map (\<lambda>a. (a, a)) ns) = ns" by (simp add: comp_def)
  have snds: "map snd (map (\<lambda>a. (a, a)) ns) = ns" by (simp add: comp_def)
  have sq: "\<And>k :: real. (\<Sum>p\<leftarrow>map (\<lambda>a. (a, a)) ns. case p of (x, y) \<Rightarrow> (x - k)\<^sup>2) = (\<Sum>a\<leftarrow>ns. (a - k)\<^sup>2)"
    by (simp add: comp_def)
  have sq2: "\<And>k :: real. (\<Sum>p\<leftarrow>map (\<lambda>a. (a, a)) ns. case p of (x, y) \<Rightarrow> (y - k)\<^sup>2) = (\<Sum>a\<leftarrow>ns. (a - k)\<^sup>2)"
    by (simp add: comp_def)
  have cv: "\<And>k :: real. (\<Sum>p\<leftarrow>map (\<lambda>a. (a, a)) ns. case p of (x, y) \<Rightarrow> (x - k) * (y - k)) = (\<Sum>a\<leftarrow>ns. (a - k)\<^sup>2)"
    by (simp add: comp_def power2_eq_square)
  have unf: "pearson_of_pairs (map (\<lambda>a. (a, a)) ns) =
      (if ns = [] \<or> sqrt (S * S) = 0 then None else Some (S / sqrt (S * S)))"
    unfolding pearson_of_pairs_def Let_def fsts snds length_map sq sq2 cv m_def[symmetric] S_def[symmetric]
    by simp
  have root: "sqrt (S * S) = S" using nonneg by simp
  show ?thesis unfolding unf root by simp
qed

lemma pearson_same:
  "pearson c c = (if varies c then Some 1 else None)"
proof (cases "column_numbers c = []")
  case True
  then have "\<not> varies c" by (simp add: varies_def)
  then show ?thesis using True
    by (simp add: pearson_def complete_pairs_same pearson_of_pairs_def)
next
  case False
  have "varies c \<longleftrightarrow>
      (\<Sum>a\<leftarrow>column_numbers c. (a - sum_list (column_numbers c) / real (length (column_numbers c)))\<^sup>2) \<noteq> 0"
    unfolding varies_def squares_zero_iff by (rule varies_mean[OF False])
  then show ?thesis using False
    by (simp add: pearson_def complete_pairs_same pearson_of_pairs_same)
qed

lemma fillna0_same: "fillna0 (pearson c c) = (if varies c then 1 else 0)"
  by (simp add: pearson_same fillna0_def)

lemma correlation_matrix_cols:
  "calculate_correlation_matrix (features t) =
     (if matrix_columns t = [] then []
      else if \<exists>c \<in> set (matrix_columns t). length c \<noteq> length (hd (matrix_columns t)) then []
      else map (\<lambda>ci. map (\<lambda>cj. fillna0 (pearson ci cj)) (matrix_columns t)) (matrix_columns t))"
  unfolding calculate_correlation_matrix_def matrix_columns_def Let_def ..

lemma correlation_matrix_nonempty:
  assumes "calculate_correlation_matrix (features t) \<noteq> []"
  shows "calculate_correlation_matrix (features t) =
           map (\<lambda>ci. map (\<lambda>cj. fillna0 (pearson ci cj)) (matrix_columns t)) (matrix_columns t)"
proof (cases "matrix_columns t = []")
  case True
  show ?thesis using assms unfolding correlation_matrix_cols True by simp
next
  case ne: False
  show ?thesis
  proof (cases "\<exists>c \<in> set (matrix_columns t). length c \<noteq> length (hd (matrix_columns t))")
    case True
    then show ?thesis using assms ne unfolding correlation_matrix_cols by simp
  next
    case False
    then show ?thesis using ne unfolding correlation_matrix_cols by (simp only: if_False)
  qed
qed

lemma correlation_matrix_aligned:
  assumes "matrix_columns t \<noteq> []"
    and "\<forall>c \<in> set (matrix_columns t). length c = length (hd (matrix_columns t))"
  shows "calculate_correlation_matrix (features t) \<noteq> []"
proof -
  have "\<not> (\<exists>c \<in> set (matrix_columns t). length c \<noteq> length (hd (matrix_columns t)))"
    using assms(2) by blast
  then have "calculate_correlation_matrix (features t) =
      map (\<lambda>ci. map (\<lambda>cj. fillna0 (pearson ci cj)) (matrix_columns t)) (matrix_columns t)"
    using assms(1) unfolding correlation_matrix_cols by (simp only: if_False)
  then show ?thesis using assms(1) by (simp only: map_is_Nil_conv not_False_eq_True)
qed

lemma correlation_matrix_shape:
  fixes cols :: "column list"
  defines "M \<equiv> map (\<lambda>ci. map (\<lambda>cj. fillna0 (pearson ci cj)) cols) cols"
  shows "length M = length cols"
    and "\<forall>row \<in> set M. length row = length M"
    and "\<forall>i < length M. \<forall>j < length M. M ! i ! j = fillna0 (pearson (cols ! i) (cols ! j))"
proof -
  show len: "length M = length cols" by (simp add: M_def)
  show "\<forall>row \<in> set M. length row = length M" by (auto simp add: M_def)
  show "\<forall>i < length M. \<forall>j < length M. M ! i ! j = fillna0 (pearson (cols ! i) (cols ! j))"
    unfolding len by (simp add: M_def)
qed

text \<open>
  C2 (amended). For every table that \<open>generate_features\<close> returns, the correlation
  matrix is square and symmetric and all its entries lie in \<open>[-1, 1]\<close>. When it is not
  empty it has one row per non-empty feature column, entry \<open>(i, j)\<close> is the Pearson
  correlation of columns \<open>i\<close> and \<open>j\<close> over their pairwise complete rows, with 0 in place
  of an undefined correlation, and the diagonal entry of a column is 1 when two of its
  numbers differ and 0 when the column is constant or holds no number. The matrix is not
  empty as soon as there is a non-empty column and all of them have one length.
\<close>

theorem correlation_matrix_properties:
  assumes run: "fst (generate_features lib now u tick preset selected stock_data) = Inr t"
  shows "(\<forall>row \<in> set (correlation_matrix t). length row = length (correlation_matrix t)) \<and>
     (\<forall>i < length (correlation_matrix t). \<forall>j < length (correlation_matrix t).
        correlation_matrix t ! i ! j = correlation_matrix t ! j ! i \<and>
        - 1 \<le> correlation_matrix t ! i ! j \<and> correlation_matrix t ! i ! j \<le> 1) \<and>
     (correlation_matrix t \<noteq> [] \<longrightarrow>
        length (correlation_matrix t) = length (matrix_columns t) \<and>
        (\<forall>i < length (correlation_matrix t). \<forall>j < length (correlation_matrix t).
           correlation_matrix t ! i ! j =
             fillna0 (pearson (matrix_columns t ! i) (matrix_columns t ! j))) \<and>
        (\<forall>i < length (correlation_matrix t).
           correlation_matrix t ! i ! i = (if varies (matrix_columns t ! i) then 1 else 0))) \<and>
     (matrix_columns t \<noteq> [] \<and>
      (\<forall>c \<in> set (matrix_columns t). length c = length (hd (matrix_columns t))) \<longrightarrow>
        correlation_matrix t \<noteq> [])"
proof -
  define M where "M = correlation_matrix t"
  define cols where "cols = matrix_columns t"
  from generate_features_table[OF run]
  have cm: "M = calculate_correlation_matrix (features t)"
    unfolding M_def by (elim exE conjE)
  have aligned: "cols \<noteq> [] \<and> (\<forall>c \<in> set cols. length c = length (hd cols)) \<longrightarrow> M \<noteq> []"
    unfolding cm cols_def using correlation_matrix_aligned[of t] by blast
  have rest: "(\<forall>row \<in> set M. length row = length M) \<and>
     (\<forall>i < length M. \<forall>j < length M.
        M ! i ! j = M ! j ! i \<and> - 1 \<le> M ! i ! j \<and> M ! i ! j \<le> 1) \<and>
     (M \<noteq> [] \<longrightarrow>
        length M = length cols \<and>
        (\<forall>i < length M. \<forall>j < length M. M ! i ! j = fillna0 (pearson (cols ! i) (cols ! j))) \<and>
        (\<forall>i < length M. M ! i ! i = (if varies (cols ! i) then 1 else 0)))"
  proof (cases "M = []")
    case True
    then show ?thesis by simp
  next
    case False
    then have eq: "M = map (\<lambda>ci. map (\<lambda>cj. fillna0 (pearson ci cj)) cols) cols"
      unfolding cm cols_def by (rule correlation_matrix_nonempty)
    have len: "length M = length cols"
      unfolding eq by (rule correlation_matrix_shape(1))
    have rows: "\<forall>row \<in> set M. length row = length M"
      unfolding eq by (rule correlation_matrix_shape(2))
    have entry: "\<forall>i < length M. \<forall>j < length M. M ! i ! j = fillna0 (pearson (cols ! i) (cols ! j))"
      unfolding eq by (rule correlation_matrix_shape(3))
    have sym: "\<forall>i < length M. \<forall>j < length M.
        M ! i ! j = M ! j ! i \<and> - 1 \<le> M ! i ! j \<and> M ! i ! j \<le> 1"
    proof (intro allI impI)
      fix i j assume i: "i < length M" and j: "j < length M"
      have ij: "M ! i ! j = fillna0 (pearson (cols ! i) (cols ! j))" using entry i j by blast
      have ji: "M ! j ! i = fillna0 (pearson (cols ! j) (cols ! i))" using entry i j by blast
      show "M ! i ! j = M ! j ! i \<and> - 1 \<le> M ! i ! j \<and> M ! i ! j \<le> 1"
        unfolding ij ji using pearson_symmetric[of "cols ! i" "cols ! j"]
          fillna0_bounds[of "cols ! j" "cols ! i"] by simp
    qed
    have diag: "\<forall>i < length M. M ! i ! i = (if varies (cols ! i) then 1 else 0)"
    proof (intro allI impI)
      fix i assume i: "i < length M"
      have "M ! i ! i = fillna0 (pearson (cols ! i) (cols ! i))" using entry i by blast
      then show "M ! i ! i = (if varies (cols ! i) then 1 else 0)"
        by (simp only: fillna0_same)
    qed
    show ?thesis using len rows entry sym diag by (intro conjI impI)
  qed
  show ?thesis using rest aligned unfolding M_def cols_def by (intro conjI) (elim conjE, assumption)+
qed

text \<open>
  The closing prices and the constant mock column on the example rows: a 2 x 2 matrix
  with 1 for the closing prices on the diagonal and 0 wherever the constant column takes
  part.
\<close>

theorem correlation_matrix_properties_witness:
  "\<exists>t. fst (generate_features failing_lib 0 (constant_stream 0) ''ACME'' ''custom''
            [''close'', ''pe_ratio''] (Some example_rows)) = Inr t \<and>
       length (correlation_matrix t) = 2 \<and>
       correlation_matrix t ! 0 ! 0 = 1 \<and>
       correlation_matrix t ! 0 ! 1 = 0 \<and>
       correlation_matrix t ! 1 ! 0 = 0 \<and>
       correlation_matrix t ! 1 ! 1 = 0"
proof -
  have ne: "example_rows \<noteq> []" by (simp add: example_rows_def)
  define t where "t = (case fst (generate_features failing_lib 0 (constant_stream 0) ''ACME'' ''custom''
             [''close'', ''pe_ratio''] (Some example_rows)) of Inr x \<Rightarrow> x)"
  have gf: "fst (generate_feature failing_lib (sort_key date example_rows) ''pe_ratio'') = Some [Some 20.5, Some 20.5, Some 20.5]"
       "fst (generate_feature failing_lib (sort_key date example_rows) ''close'') = Some [Some 10, Some 12, Some 11]"
    by (simp_all add: generate_feature_value example_pe_ratio example_close)
  have run: "fst (generate_features failing_lib 0 (constant_stream 0) ''ACME'' ''custom''
             [''close'', ''pe_ratio''] (Some example_rows)) = Inr t"
    by (simp add: t_def generate_features_custom[OF ne] Let_def)
  have cols: "matrix_columns t = [[Some 10, Some 12, Some 11], [Some 20.5, Some 20.5, Some 20.5]]"
    by (simp add: matrix_columns_def t_def generate_features_custom[OF ne] Let_def feature_step_fst gf
        feature_entry_def)
  have cn: "column_numbers [Some 10, Some 12, Some 11] = [10, 12, 11]"
    by (simp add: column_numbers_def)
  have v0: "varies [Some 10, Some 12, Some 11]"
    unfolding varies_def cn by (rule bexI[of _ 10], rule bexI[of _ 12]) simp_all
  have v1: "\<not> varies [Some 20.5, Some 20.5, Some 20.5]" by (simp add: varies_def column_numbers_def)
  have off: "fillna0 (pearson [Some 10, Some 12, Some 11] [Some 20.5, Some 20.5, Some 20.5]) = 0"
    by (simp add: pearson_def pearson_of_pairs_def Let_def fillna0_def)
  have sym: "\<forall>i < length (correlation_matrix t). \<forall>j < length (correlation_matrix t).
        correlation_matrix t ! i ! j = correlation_matrix t ! j ! i \<and>
        - 1 \<le> correlation_matrix t ! i ! j \<and> correlation_matrix t ! i ! j \<le> 1"
    using correlation_matrix_properties[OF run] by (elim conjE)
  have full: "correlation_matrix t \<noteq> [] \<longrightarrow>
        length (correlation_matrix t) = length (matrix_columns t) \<and>
        (\<forall>i < length (correlation_matrix t). \<forall>j < length (correlation_matrix t).
           correlation_matrix t ! i ! j =
             fillna0 (pearson (matrix_columns t ! i) (matrix_columns t ! j))) \<and>
        (\<forall>i < length (correlation_matrix t).
           correlation_matrix t ! i ! i = (if varies (matrix_columns t ! i) then 1 else 0))"
    using correlation_matrix_properties[OF run] by (elim conjE)
  have aligned: "matrix_columns t \<noteq> [] \<and>
      (\<forall>c \<in> set (matrix_columns t). length c = length (hd (matrix_columns t))) \<longrightarrow>
        correlation_matrix t \<noteq> []"
    using correlation_matrix_properties[OF run] by (elim conjE)
  have nonempty: "correlation_matrix t \<noteq> []" using aligned unfolding cols by simp
  from full nonempty have props: "length (correlation_matrix t) = length (matrix_columns t) \<and>
        (\<forall>i < length (correlation_matrix t). \<forall>j < length (correlation_matrix t).
           correlation_matrix t ! i ! j =
             fillna0 (pearson (matrix_columns t ! i) (matrix_columns t ! j))) \<and>
        (\<forall>i < length (correlation_matrix t).
           correlation_matrix t ! i ! i = (if varies (matrix_columns t ! i) then 1 else 0))"
    by (rule mp)
  have len0: "length (correlation_matrix t) = length (matrix_columns t)"
    using props by (elim conjE)
  have entry: "\<forall>i < length (correlation_matrix t). \<forall>j < length (correlation_matrix t).
           correlation_matrix t ! i ! j =
             fillna0 (pearson (matrix_columns t ! i) (matrix_columns t ! j))"
    using props by (elim conjE)
  have diag: "\<forall>i < length (correlation_matrix t).
           correlation_matrix t ! i ! i = (if varies (matrix_columns t ! i) then 1 else 0)"
    using props by (elim conjE)
  have len: "length (correlation_matrix t) = 2" unfolding len0 cols by simp
  have lt0: "0 < length (correlation_matrix t)" unfolding len by simp
  have lt1: "1 < length (correlation_matrix t)" unfolding len by simp
  have c0: "matrix_columns t ! 0 = [Some 10, Some 12, Some 11]" unfolding cols by simp
  have c1: "matrix_columns t ! 1 = [Some 20.5, Some 20.5, Some 20.5]" unfolding cols by simp
  have d0: "correlation_matrix t ! 0 ! 0 = 1"
    using diag[rule_format, OF lt0] v0 unfolding c0 by simp
  have d1: "correlation_matrix t ! 1 ! 1 = 0"
    using diag[rule_format, OF lt1] v1 unfolding c1 by simp
  have e01: "correlation_matrix t ! 0 ! 1 = 0"
    using entry[rule_format, OF lt0 lt1] off unfolding c0 c1 by simp
  have "correlation_matrix t ! 1 ! 0 = correlation_matrix t ! 0 ! 1"
    using sym[rule_format, OF lt1 lt0] by (elim conjE)
  then have e10: "correlation_matrix t ! 1 ! 0 = 0" using e01 by simp
  show ?thesis using run len d0 e01 e10 d1 by (intro exI[of _ t] conjI)
qed

text \<open>
  C2 (as written). A table with the single constant column \<open>pe_ratio\<close> (the mock value
  20.5 in every row) gets the matrix \<open>[[0]]\<close>: the correlation of a constant column with
  itself is undefined and is replaced by 0, so the diagonal entry is not 1.0.
\<close>

theorem correlation_diagonal_counterexample:
  "map_sum id correlation_matrix
     (fst (generate_features failing_lib 0 (constant_stream 0) ''ACME'' ''custom'' [''pe_ratio'']
            (Some example_rows))) = Inr [[0]]"
proof -
  have ne: "example_rows \<noteq> []" by (simp add: example_rows_def)
  have gf: "fst (generate_feature failing_lib (sort_key date example_rows) ''pe_ratio'') =
      Some [Some 20.5, Some 20.5, Some 20.5]"
    by (simp add: generate_feature_value example_pe_ratio)
  have "calculate_correlation_matrix
          [(''pe_ratio'', feature_entry ''pe_ratio'' [Some 20.5, Some 20.5, Some 20.5])] = [[0]]"
    by (simp add: calculate_correlation_matrix_def feature_entry_def pearson_def
        pearson_of_pairs_def fillna0_def Let_def)
  then show ?thesis
    by (simp add: generate_features_custom[OF ne] Let_def feature_step_fst gf)
qed

end
